theory Spec2Isabelle
  imports Main
begin

section \<open>JavaScript values\<close>

text \<open>
  The values that flow through \<^verbatim>\<open>simpleuploadadapter.js\<close>: the configuration read from
  the editor, the payload of the file loader and the parsed JSON body of the response.
  An object is an association list of its own properties; \<open>File\<close> is a host file object.
\<close>

datatype js_val =
    Undefined
  | Null
  | Bool bool
  | Num int
  | Str string
  | File string
  | Arr "js_val list"
  | Obj "(string \<times> js_val) list"

datatype js_error = TypeError | SyntaxError | AbortError | HostError string

text \<open>JavaScript's \<^verbatim>\<open>!x\<close> is \<open>\<not> truthy x\<close>.\<close>

fun truthy :: "js_val \<Rightarrow> bool" where
  "truthy Undefined = False"
| "truthy Null = False"
| "truthy (Bool b) = b"
| "truthy (Num n) = (n \<noteq> 0)"
| "truthy (Str s) = (s \<noteq> [])"
| "truthy (File f) = True"
| "truthy (Arr xs) = True"
| "truthy (Obj fs) = True"

text \<open>
  Reading a property \<^verbatim>\<open>v.name\<close>: a TypeError on \<^verbatim>\<open>undefined\<close> and \<^verbatim>\<open>null\<close>, the
  property's value on an object that has it, \<^verbatim>\<open>undefined\<close> otherwise. The names the
  adapter reads (\<^verbatim>\<open>uploadUrl\<close>, \<^verbatim>\<open>CLOUDINARY_UPLOAD_PRESET\<close>, \<^verbatim>\<open>CLOUDINARY_UPLOAD_URL\<close>,
  \<^verbatim>\<open>secure_url\<close>) are not built-in properties of any primitive, array or file.
\<close>

fun get_prop :: "string \<Rightarrow> js_val \<Rightarrow> js_error + js_val" where
  "get_prop name Undefined = Inl TypeError"
| "get_prop name Null = Inl TypeError"
| "get_prop name (Obj fs) = Inr (case map_of fs name of None \<Rightarrow> Undefined | Some v \<Rightarrow> v)"
| "get_prop name v = Inr Undefined"

section \<open>The host and the platform\<close>

text \<open>
  An \<^verbatim>\<open>Adapter\<close> object has the two fields its constructor sets (the loader is a
  handle of the host's file loader) and the \<^verbatim>\<open>abortController\<close> property that only
  \<^verbatim>\<open>upload()\<close> assigns: \<open>None\<close> is the property being undefined, \<open>Some c\<close> a
  reference to the controller object \<open>c\<close>.
\<close>

record adapter =
  loader :: nat
  options :: js_val
  abortController :: "nat option"

text \<open>The options dictionary that \<^verbatim>\<open>upload()\<close> passes to \<^verbatim>\<open>fetch\<close>, key by key.\<close>

datatype init_val = IStr string | IForm "(string \<times> js_val) list" | ISignal nat

record fetch_call =
  url :: js_val
  req_init :: "(string \<times> init_val) list"

record response =
  status :: nat
  json_body :: "js_val option"

text \<open>
  Where a call of the async function \<^verbatim>\<open>upload()\<close> stands: suspended at one of its three
  \<^verbatim>\<open>await\<close>s, or settled (\<open>Inl\<close> rejected with an error, \<open>Inr\<close> resolved with a value).
\<close>

datatype stage =
    AwaitingFile
  | AwaitingFetch
  | AwaitingJson response
  | Settled "js_error + js_val"

record call =
  self :: nat
  signal :: nat
  data :: "(string \<times> js_val) list"
  stage :: stage

text \<open>The closure \<^verbatim>\<open>loader => new Adapter( loader, options )\<close> with the options it captured.\<close>

datatype factory = AdapterFactory js_val

text \<open>
  Everything the plugin reads or writes: the editor's configuration store, the
  \<^verbatim>\<open>createUploadAdapter\<close> slot of the file repository, the console, the heap of adapter
  objects, the heap of abort controllers (each the \<^verbatim>\<open>aborted\<close> flag of its signal), the
  abort events fired so far (by controller), the calls of \<^verbatim>\<open>fetch\<close> made so far, and the
  calls of \<^verbatim>\<open>upload()\<close> made so far. An object's address is its index in its heap.
\<close>

record world =
  config :: "(string \<times> js_val) list"
  createUploadAdapter :: "factory option"
  warnings :: "string list"
  adapters :: "adapter list"
  controllers :: "bool list"
  cancelled :: "nat list"
  fetches :: "fetch_call list"
  calls :: "call list"

text \<open>\<^verbatim>\<open>config.get( name )\<close> of the host: \<^verbatim>\<open>undefined\<close> for a name that is not set.\<close>

definition config_get :: "string \<Rightarrow> (string \<times> js_val) list \<Rightarrow> js_val" where
  "config_get name cfg = (case map_of cfg name of None \<Rightarrow> Undefined | Some v \<Rightarrow> v)"

section \<open>SimpleUploadAdapter.init\<close>

definition missing_uploadUrl :: string where
  "missing_uploadUrl =
     ''simple-upload-adapter-missing-uploadUrl: Missing the \"uploadUrl\" property in the \"simpleUpload\" editor configuration.''"

text \<open>
  \<^verbatim>\<open>init()\<close>, with \<^verbatim>\<open>attachLinkToDocumentation\<close> of ckeditor5-utils as a parameter.
\<close>

definition init :: "(string \<Rightarrow> string) \<Rightarrow> world \<Rightarrow> js_error + world" where
  "init attachLinkToDocumentation w =
     (let opts = config_get ''simpleUpload'' (config w) in
      if \<not> truthy opts then Inr w
      else case get_prop ''uploadUrl'' opts of
             Inl e \<Rightarrow> Inl e
           | Inr u \<Rightarrow>
               if \<not> truthy u
               then Inr (w\<lparr>warnings := warnings w @ [attachLinkToDocumentation missing_uploadUrl]\<rparr>)
               else Inr (w\<lparr>createUploadAdapter := Some (AdapterFactory opts)\<rparr>))"

section \<open>Adapter\<close>

text \<open>
  The source never closes the body of \<^verbatim>\<open>class Adapter\<close>; the model takes the constructor,
  \<^verbatim>\<open>upload()\<close> and \<^verbatim>\<open>abort()\<close> as its members, as the layout of the file shows.

  The constructor: a new object at a fresh address, \<^verbatim>\<open>abortController\<close> not yet set.
\<close>

definition new_Adapter :: "nat \<Rightarrow> js_val \<Rightarrow> world \<Rightarrow> nat \<times> world" where
  "new_Adapter l opts w =
     (length (adapters w),
      w\<lparr>adapters := adapters w @ [\<lparr>loader = l, options = opts, abortController = None\<rparr>]\<rparr>)"

text \<open>The host calling the registered factory with a loader.\<close>

fun apply_factory :: "factory \<Rightarrow> nat \<Rightarrow> world \<Rightarrow> nat \<times> world" where
  "apply_factory (AdapterFactory opts) l w = new_Adapter l opts w"

text \<open>A call of \<^verbatim>\<open>upload()\<close> ends: its promise resolves or rejects.\<close>

definition settle :: "nat \<Rightarrow> js_error + js_val \<Rightarrow> world \<Rightarrow> world" where
  "settle k r w = w\<lparr>calls := (calls w)[k := (calls w ! k)\<lparr>stage := Settled r\<rparr>]\<rparr>"

text \<open>
  \<^verbatim>\<open>upload()\<close> up to its first \<^verbatim>\<open>await\<close>. It returns the new call (its promise) and
  never throws: an exception inside an async function rejects the promise. A new
  controller is created and stored in the adapter, the form gets its first entry (the
  model keeps the value handed to \<^verbatim>\<open>append\<close>), and the call waits for
  \<^verbatim>\<open>this.loader.file\<close>. On a receiver that is no adapter object the assignment of the
  new controller throws.
\<close>

definition upload :: "nat \<Rightarrow> world \<Rightarrow> nat \<times> world" where
  "upload a w =
     (let k = length (calls w); c = length (controllers w);
          w0 = w\<lparr>controllers := controllers w @ [False]\<rparr> in
      if a < length (adapters w) then
        let w1 = w0\<lparr>adapters := (adapters w)[a := (adapters w ! a)\<lparr>abortController := Some c\<rparr>]\<rparr>
        in case get_prop ''CLOUDINARY_UPLOAD_PRESET'' (options (adapters w1 ! a)) of
             Inl e \<Rightarrow>
               (k, w1\<lparr>calls := calls w1 @
                      [\<lparr>self = a, signal = c, data = [], stage = Settled (Inl e)\<rparr>]\<rparr>)
           | Inr p \<Rightarrow>
               (k, w1\<lparr>calls := calls w1 @
                      [\<lparr>self = a, signal = c, data = [(''upload_preset'', p)],
                        stage = AwaitingFile\<rparr>]\<rparr>)
      else (k, w0\<lparr>calls := calls w0 @
                   [\<lparr>self = a, signal = c, data = [], stage = Settled (Inl TypeError)\<rparr>]\<rparr>))"

text \<open>
  The promise \<^verbatim>\<open>this.loader.file\<close> settles with \<open>r\<close> and call \<open>k\<close> resumes: a rejection
  rejects the call; a file is appended to the form and \<^verbatim>\<open>fetch\<close> is called, once, with
  the object literal of the source as its second argument. A call that is not waiting
  for the file has no continuation to run.
\<close>

definition file_settles :: "nat \<Rightarrow> js_error + js_val \<Rightarrow> world \<Rightarrow> world" where
  "file_settles k r w =
     (if k < length (calls w) \<and> stage (calls w ! k) = AwaitingFile then
        case r of
          Inl e \<Rightarrow> settle k (Inl e) w
        | Inr file \<Rightarrow>
            (let cl = calls w ! k; d = data cl @ [(''file'', file)];
                 w1 = w\<lparr>calls := (calls w)[k := cl\<lparr>data := d\<rparr>]\<rparr>
             in case get_prop ''CLOUDINARY_UPLOAD_URL'' (options (adapters w ! self cl)) of
                  Inl e \<Rightarrow> settle k (Inl e) w1
                | Inr u \<Rightarrow>
                    w\<lparr>fetches := fetches w @
                         [\<lparr>url = u,
                           req_init = [(''method'', IStr ''POST''), (''body'', IForm d),
                                       (''signal'', ISignal (signal cl))]\<rparr>],
                       calls := (calls w)[k := cl\<lparr>data := d, stage := AwaitingFetch\<rparr>]\<rparr>)
      else w)"

text \<open>
  What the platform's \<^verbatim>\<open>fetch\<close> settles with (Fetch standard), in the order in which
  the standard decides it. First the Request is constructed from the URL and the options:
  when that fails (\<open>built\<close> is false: the URL does not parse against the base URL of
  the page, or carries credentials), \<^verbatim>\<open>fetch\<close> rejects with a TypeError, also when the
  signal is already aborted. Then the signal: when it is aborted, before the call or
  while the request is in flight, \<^verbatim>\<open>fetch\<close> rejects with an AbortError. Otherwise it
  settles with what the network gives, a response of any status or a network error.
\<close>

definition fetch_reply ::
  "bool \<Rightarrow> bool \<Rightarrow> js_error + response \<Rightarrow> js_error + response" where
  "fetch_reply built aborted net =
     (if \<not> built then Inl TypeError else if aborted then Inl AbortError else net)"

text \<open>
  The \<^verbatim>\<open>fetch\<close> promise settles and call \<open>k\<close> resumes, calling \<^verbatim>\<open>res.json()\<close>. The
  platform says whether it could construct the Request (\<open>built\<close>) and what the network
  gave (\<open>net\<close>).
\<close>

definition fetch_settles ::
  "nat \<Rightarrow> bool \<Rightarrow> js_error + response \<Rightarrow> world \<Rightarrow> world" where
  "fetch_settles k built net w =
     (if k < length (calls w) \<and> stage (calls w ! k) = AwaitingFetch then
        case fetch_reply built (controllers w ! signal (calls w ! k)) net of
          Inl e \<Rightarrow> settle k (Inl e) w
        | Inr res \<Rightarrow> w\<lparr>calls := (calls w)[k := (calls w ! k)\<lparr>stage := AwaitingJson res\<rparr>]\<rparr>
      else w)"

text \<open>
  What the platform's \<^verbatim>\<open>res.json()\<close> settles with: an AbortError when the request's
  signal is aborted while the body is read, a SyntaxError when the body is not JSON,
  the parsed value otherwise. The status of the response plays no part.
\<close>

definition json_reply :: "bool \<Rightarrow> response \<Rightarrow> js_error + js_val" where
  "json_reply aborted res =
     (if aborted then Inl AbortError
      else case json_body res of None \<Rightarrow> Inl SyntaxError | Some v \<Rightarrow> Inr v)"

text \<open>
  The \<^verbatim>\<open>res.json()\<close> promise settles and call \<open>k\<close> resumes: the destructuring
  \<^verbatim>\<open>const { secure_url } = ...\<close> reads the property, and the call returns.
\<close>

definition json_settles :: "nat \<Rightarrow> world \<Rightarrow> world" where
  "json_settles k w =
     (if k < length (calls w) then
        case stage (calls w ! k) of
          AwaitingJson res \<Rightarrow>
            (case json_reply (controllers w ! signal (calls w ! k)) res of
               Inl e \<Rightarrow> settle k (Inl e) w
             | Inr v \<Rightarrow>
                 (case get_prop ''secure_url'' v of
                    Inl e \<Rightarrow> settle k (Inl e) w
                  | Inr u \<Rightarrow> settle k (Inr (Obj [(''default'', u)])) w))
        | _ \<Rightarrow> w
      else w)"

text \<open>
  \<^verbatim>\<open>AbortController.abort()\<close> of the platform (DOM standard): on a signal that is
  already aborted nothing happens; otherwise the flag is set and the abort event fires.
\<close>

definition signal_abort :: "nat \<Rightarrow> world \<Rightarrow> world" where
  "signal_abort c w =
     (if controllers w ! c then w
      else w\<lparr>controllers := (controllers w)[c := True], cancelled := cancelled w @ [c]\<rparr>)"

text \<open>
  \<^verbatim>\<open>abort()\<close>: \<^verbatim>\<open>this.abortController.abort()\<close>, with no test of the property. Calling
  a method of \<^verbatim>\<open>undefined\<close> throws a TypeError.
\<close>

definition abort :: "nat \<Rightarrow> world \<Rightarrow> js_error + world" where
  "abort a w =
     (if a < length (adapters w) then
        case abortController (adapters w ! a) of
          None \<Rightarrow> Inl TypeError
        | Some c \<Rightarrow> Inr (signal_abort c w)
      else Inl TypeError)"

section \<open>Running a call to its end\<close>

text \<open>
  What the environment answers to one call of \<^verbatim>\<open>upload()\<close>: what the loader's file
  promise settles with, and what the network gives to the request.
\<close>

record answers =
  file_answer :: "js_error + js_val"
  net_answer :: "js_error + response"

text \<open>
  The three promises settle in the order in which \<^verbatim>\<open>upload()\<close> awaits them, the
  platform having constructed the Request (\<open>built\<close>) or not.
\<close>

definition finish_with :: "bool \<Rightarrow> answers \<Rightarrow> nat \<Rightarrow> world \<Rightarrow> world" where
  "finish_with built env k w =
     json_settles k
       (fetch_settles k built (net_answer env) (file_settles k (file_answer env) w))"

text \<open>The same for a request that the platform could construct.\<close>

definition finish :: "answers \<Rightarrow> nat \<Rightarrow> world \<Rightarrow> world" where
  "finish env k w =
     json_settles k
       (fetch_settles k True (net_answer env) (file_settles k (file_answer env) w))"

text \<open>The result of a call: \<open>None\<close> while it is pending.\<close>

definition outcome :: "nat \<Rightarrow> world \<Rightarrow> (js_error + js_val) option" where
  "outcome k w = (case stage (calls w ! k) of Settled r \<Rightarrow> Some r | _ \<Rightarrow> None)"

text \<open>A world with nothing in it but the editor's configuration.\<close>

definition empty_world :: "(string \<times> js_val) list \<Rightarrow> world" where
  "empty_world cfg =
     \<lparr>config = cfg, createUploadAdapter = None, warnings = [], adapters = [],
      controllers = [], cancelled = [], fetches = [], calls = []\<rparr>"

section \<open>The host driving the plugin\<close>

text \<open>
  What can happen to the plugin after \<^verbatim>\<open>init()\<close>: the host creates an adapter for a
  loader through the registered factory, calls \<^verbatim>\<open>upload()\<close> or \<^verbatim>\<open>abort()\<close> on an adapter,
  or one of the promises a call is waiting for settles. An \<^verbatim>\<open>abort()\<close> that throws
  leaves the world as it was.
\<close>

datatype event =
    Create nat
  | Upload nat
  | Abort nat
  | FileSettles nat "js_error + js_val"
  | FetchSettles nat bool "js_error + response"
  | JsonSettles nat

fun step :: "event \<Rightarrow> world \<Rightarrow> world" where
  "step (Create l) w =
     (case createUploadAdapter w of None \<Rightarrow> w | Some f \<Rightarrow> snd (apply_factory f l w))"
| "step (Upload a) w = snd (upload a w)"
| "step (Abort a) w = (case abort a w of Inl e \<Rightarrow> w | Inr w' \<Rightarrow> w')"
| "step (FileSettles k r) w = file_settles k r w"
| "step (FetchSettles k built net) w = fetch_settles k built net w"
| "step (JsonSettles k) w = json_settles k w"

definition exec :: "event list \<Rightarrow> world \<Rightarrow> world" where
  "exec evs w = fold step evs w"

text \<open>An event concerns adapter \<open>a\<close> when it is a method call on \<open>a\<close> or resumes a call on \<open>a\<close>.\<close>

fun concerns :: "nat \<Rightarrow> world \<Rightarrow> event \<Rightarrow> bool" where
  "concerns a w (Create l) = False"
| "concerns a w (Upload b) = (b = a)"
| "concerns a w (Abort b) = (b = a)"
| "concerns a w (FileSettles k r) = (k < length (calls w) \<and> self (calls w ! k) = a)"
| "concerns a w (FetchSettles k built net) =
     (k < length (calls w) \<and> self (calls w ! k) = a)"
| "concerns a w (JsonSettles k) = (k < length (calls w) \<and> self (calls w ! k) = a)"

text \<open>A sequence of events none of which concerns \<open>a\<close>, each looked at when it happens.\<close>

fun foreign :: "nat \<Rightarrow> event list \<Rightarrow> world \<Rightarrow> bool" where
  "foreign a [] w = True"
| "foreign a (e # es) w = (\<not> concerns a w e \<and> foreign a es (step e w))"

text \<open>
  Who made which controller: every call of \<^verbatim>\<open>upload()\<close> keeps the controller it created
  in \<^verbatim>\<open>signal\<close> and its receiver in \<^verbatim>\<open>self\<close>.
\<close>

definition owners :: "world \<Rightarrow> (nat \<times> nat) list" where
  "owners w = map (\<lambda>cl. (signal cl, self cl)) (calls w)"

text \<open>
  The shape of every world the plugin can be in: each call has a controller of its own,
  which exists, and the controller an adapter refers to was made by a call on that
  adapter.
\<close>

definition consistent :: "world \<Rightarrow> bool" where
  "consistent w \<longleftrightarrow>
     distinct (map fst (owners w))
   \<and> (\<forall>c \<in> set (map fst (owners w)). c < length (controllers w))
   \<and> (\<forall>b < length (adapters w). \<forall>c.
         abortController (adapters w ! b) = Some c \<longrightarrow> (c, b) \<in> set (owners w))"

text \<open>
  Adapter \<open>a\<close> is in \<open>w'\<close> as it was in \<open>w\<close>: the object itself, every call of
  \<^verbatim>\<open>upload()\<close> made on it (where it stands, its form, its result) and the flag of the
  controller of each of these calls.
\<close>

definition untouched :: "nat \<Rightarrow> world \<Rightarrow> world \<Rightarrow> bool" where
  "untouched a w w' \<longleftrightarrow>
     length (adapters w) \<le> length (adapters w')
   \<and> length (calls w) \<le> length (calls w')
   \<and> adapters w' ! a = adapters w ! a
   \<and> (\<forall>k < length (calls w). self (calls w ! k) = a \<longrightarrow>
         calls w' ! k = calls w ! k
       \<and> controllers w' ! signal (calls w ! k) = controllers w ! signal (calls w ! k))"

section \<open>Concrete inputs\<close>

text \<open>
  Two configurations that \<^verbatim>\<open>init()\<close> accepts: the one of the documentation comment in
  the source, with \<^verbatim>\<open>uploadUrl\<close> and \<^verbatim>\<open>headers\<close>, and one that also has the two
  properties \<^verbatim>\<open>upload()\<close> reads. And a world with one adapter for loader 7.
\<close>

definition documented_options :: js_val where
  "documented_options =
     Obj [(''uploadUrl'', Str ''http://example.com''),
          (''headers'', Obj [(''X-CSRF-TOKEN'', Str ''CSRF-Token'')])]"

definition cloudinary_options :: js_val where
  "cloudinary_options =
     Obj [(''uploadUrl'', Str ''http://example.com''),
          (''headers'', Obj [(''X-CSRF-TOKEN'', Str ''CSRF-Token'')]),
          (''CLOUDINARY_UPLOAD_URL'', Str ''https://api.cloudinary.com/v1_1/demo/upload''),
          (''CLOUDINARY_UPLOAD_PRESET'', Str ''preset1'')]"

definition one_adapter :: world where
  "one_adapter =
     snd (new_Adapter 7 cloudinary_options (empty_world [(''simpleUpload'', cloudinary_options)]))"

text \<open>
  Three responses: the one of the specification's example, an HTTP 500 with a JSON
  error body, and one whose body is not JSON. And a loader that yields a file.
\<close>

definition cdn_response :: response where
  "cdn_response =
     \<lparr>status = 200,
      json_body = Some (Obj [(''secure_url'', Str ''https://cdn.example.com/x.png'')])\<rparr>"

definition error_response :: response where
  "error_response =
     \<lparr>status = 500,
      json_body = Some (Obj [(''error'', Obj [(''message'', Str ''Internal Server Error'')])])\<rparr>"

definition garbled_response :: response where
  "garbled_response = \<lparr>status = 200, json_body = None\<rparr>"

definition answered :: "response \<Rightarrow> answers" where
  "answered res = \<lparr>file_answer = Inr (File ''x.png''), net_answer = Inr res\<rparr>"

section \<open>Configuration resolution\<close>

lemma config_get_absent:
  "map_of cfg name = None \<Longrightarrow> config_get name cfg = Undefined"
  by (simp add: config_get_def)

lemma config_get_present:
  "map_of cfg name = Some v \<Longrightarrow> config_get name cfg = v"
  by (simp add: config_get_def)

lemma truthy_get_prop:
  "truthy v \<Longrightarrow> \<exists>x. get_prop name v = Inr x"
  by (cases v) simp_all

text \<open>
  C5. When the configuration store has no value under \<^verbatim>\<open>simpleUpload\<close>, \<^verbatim>\<open>init()\<close> returns
  normally and leaves the whole world as it was: no factory is registered, nothing is
  logged, no error is raised.
\<close>

theorem init_absent_config:
  assumes "map_of (config w) ''simpleUpload'' = None"
  shows "init attachLinkToDocumentation w = Inr w"
  using assms by (simp add: init_def config_get_absent)

theorem init_absent_config_witness:
  "map_of (config (empty_world [])) ''simpleUpload'' = None
   \<and> init id (empty_world []) = Inr (empty_world [])"
  using init_absent_config [of "empty_world []" id]
  by (simp add: empty_world_def)

text \<open>
  C4. When the configuration is an object without an \<^verbatim>\<open>uploadUrl\<close> property,
  \<^verbatim>\<open>init()\<close> returns normally, leaves the \<^verbatim>\<open>createUploadAdapter\<close> slot (and everything
  else) as it was, and appends exactly one warning to the console: the message that
  names the \<^verbatim>\<open>uploadUrl\<close> property, passed through \<^verbatim>\<open>attachLinkToDocumentation\<close>.
\<close>

theorem init_missing_uploadUrl:
  assumes "map_of (config w) ''simpleUpload'' = Some (Obj fs)"
    and "map_of fs ''uploadUrl'' = None"
  shows "init attachLinkToDocumentation w =
           Inr (w\<lparr>warnings := warnings w @ [attachLinkToDocumentation missing_uploadUrl]\<rparr>)
         \<and> missing_uploadUrl =
             ''simple-upload-adapter-missing-'' @ ''uploadUrl'' @
             '': Missing the \"uploadUrl\" property in the \"simpleUpload\" editor configuration.''"
  using assms by (simp add: init_def config_get_present missing_uploadUrl_def)

theorem init_missing_uploadUrl_witness:
  "map_of (config (empty_world [(''simpleUpload'', Obj [(''headers'', Obj [])])]))
       ''simpleUpload'' = Some (Obj [(''headers'', Obj [])])
   \<and> map_of [(''headers'', Obj [])] ''uploadUrl'' = None
   \<and> init id (empty_world [(''simpleUpload'', Obj [(''headers'', Obj [])])]) =
       Inr \<lparr>config = [(''simpleUpload'', Obj [(''headers'', Obj [])])],
            createUploadAdapter = None, warnings = [missing_uploadUrl], adapters = [],
            controllers = [], cancelled = [], fetches = [], calls = []\<rparr>"
  using init_missing_uploadUrl
          [of "empty_world [(''simpleUpload'', Obj [(''headers'', Obj [])])]"
              "[(''headers'', Obj [])]" id]
  by (simp add: empty_world_def)

section \<open>One call of upload(), step by step\<close>

lemma upload_ready:
  assumes "a < length (adapters w)"
    and "get_prop ''CLOUDINARY_UPLOAD_PRESET'' (options (adapters w ! a)) = Inr p"
  shows "upload a w =
     (length (calls w),
      w\<lparr>controllers := controllers w @ [False],
        adapters := (adapters w)[a := (adapters w ! a)\<lparr>abortController := Some (length (controllers w))\<rparr>],
        calls := calls w @ [\<lparr>self = a, signal = length (controllers w),
                             data = [(''upload_preset'', p)], stage = AwaitingFile\<rparr>]\<rparr>)"
  using assms by (simp add: upload_def Let_def)

lemma file_settles_resolved:
  assumes "k < length (calls w)" and "stage (calls w ! k) = AwaitingFile"
    and "get_prop ''CLOUDINARY_UPLOAD_URL'' (options (adapters w ! self (calls w ! k))) = Inr u"
  shows "file_settles k (Inr f) w =
     w\<lparr>fetches := fetches w @
          [\<lparr>url = u,
            req_init = [(''method'', IStr ''POST''),
                        (''body'', IForm (data (calls w ! k) @ [(''file'', f)])),
                        (''signal'', ISignal (signal (calls w ! k)))]\<rparr>],
        calls := (calls w)[k := (calls w ! k)\<lparr>data := data (calls w ! k) @ [(''file'', f)],
                                               stage := AwaitingFetch\<rparr>]\<rparr>"
  using assms by (simp add: file_settles_def Let_def)

lemma file_settles_idle:
  "stage (calls w ! k) \<noteq> AwaitingFile \<Longrightarrow> file_settles k r w = w"
  by (simp add: file_settles_def)

lemma fetch_settles_response:
  assumes "k < length (calls w)" and "stage (calls w ! k) = AwaitingFetch"
    and "\<not> controllers w ! signal (calls w ! k)"
  shows "fetch_settles k True (Inr res) w =
           w\<lparr>calls := (calls w)[k := (calls w ! k)\<lparr>stage := AwaitingJson res\<rparr>]\<rparr>"
  using assms by (simp add: fetch_settles_def fetch_reply_def)

lemma fetch_settles_aborted:
  assumes "k < length (calls w)" and "stage (calls w ! k) = AwaitingFetch"
    and "controllers w ! signal (calls w ! k)"
  shows "fetch_settles k True net w = settle k (Inl AbortError) w"
  using assms by (simp add: fetch_settles_def fetch_reply_def)

lemma fetch_settles_refused:
  assumes "k < length (calls w)" and "stage (calls w ! k) = AwaitingFetch"
  shows "fetch_settles k False net w = settle k (Inl TypeError) w"
  using assms by (simp add: fetch_settles_def fetch_reply_def)

lemma fetch_settles_idle:
  "stage (calls w ! k) \<noteq> AwaitingFetch \<Longrightarrow> fetch_settles k b net w = w"
  by (simp add: fetch_settles_def)

lemma json_settles_parsed:
  assumes "k < length (calls w)" and "stage (calls w ! k) = AwaitingJson res"
    and "\<not> controllers w ! signal (calls w ! k)"
  shows "json_settles k w =
     settle k (case json_body res of None \<Rightarrow> Inl SyntaxError
               | Some v \<Rightarrow> (case get_prop ''secure_url'' v of Inl e \<Rightarrow> Inl e
                             | Inr x \<Rightarrow> Inr (Obj [(''default'', x)]))) w"
  using assms by (simp add: json_settles_def json_reply_def split: option.splits sum.splits)

lemma json_settles_aborted:
  assumes "k < length (calls w)" and "stage (calls w ! k) = AwaitingJson res"
    and "controllers w ! signal (calls w ! k)"
  shows "json_settles k w = settle k (Inl AbortError) w"
  using assms by (simp add: json_settles_def json_reply_def)

lemma outcome_settle:
  "k < length (calls w) \<Longrightarrow> outcome k (settle k r w) = Some r"
  by (simp add: outcome_def settle_def)

lemma upload_call:
  assumes "a < length (adapters w)"
    and "get_prop ''CLOUDINARY_UPLOAD_PRESET'' (options (adapters w ! a)) = Inr p"
    and "upload a w = (k, w1)"
  shows "k = length (calls w)"
    and "length (calls w1) = Suc (length (calls w))"
    and "calls w1 ! k = \<lparr>self = a, signal = length (controllers w),
                           data = [(''upload_preset'', p)], stage = AwaitingFile\<rparr>"
    and "adapters w1 ! a = (adapters w ! a)\<lparr>abortController := Some (length (controllers w))\<rparr>"
    and "length (adapters w1) = length (adapters w)"
    and "controllers w1 = controllers w @ [False]"
    and "fetches w1 = fetches w"
    and "cancelled w1 = cancelled w"
  using assms(1,3) by (auto simp add: upload_ready [OF assms(1,2)])

lemma file_settles_resolved_view:
  assumes "k < length (calls w)" and "stage (calls w ! k) = AwaitingFile"
    and "get_prop ''CLOUDINARY_UPLOAD_URL'' (options (adapters w ! self (calls w ! k))) = Inr u"
  shows "calls (file_settles k (Inr f) w) ! k =
           (calls w ! k)\<lparr>data := data (calls w ! k) @ [(''file'', f)], stage := AwaitingFetch\<rparr>"
    and "length (calls (file_settles k (Inr f) w)) = length (calls w)"
    and "adapters (file_settles k (Inr f) w) = adapters w"
    and "controllers (file_settles k (Inr f) w) = controllers w"
    and "cancelled (file_settles k (Inr f) w) = cancelled w"
    and "fetches (file_settles k (Inr f) w) = fetches w @
          [\<lparr>url = u,
            req_init = [(''method'', IStr ''POST''),
                        (''body'', IForm (data (calls w ! k) @ [(''file'', f)])),
                        (''signal'', ISignal (signal (calls w ! k)))]\<rparr>]"
  using assms(1) by (simp_all add: file_settles_resolved [OF assms])

lemma fetch_settles_view:
  shows "length (calls (fetch_settles k b net w)) = length (calls w)"
    and "adapters (fetch_settles k b net w) = adapters w"
    and "controllers (fetch_settles k b net w) = controllers w"
    and "cancelled (fetch_settles k b net w) = cancelled w"
    and "fetches (fetch_settles k b net w) = fetches w"
  by (simp_all add: fetch_settles_def settle_def split: sum.splits)

lemma json_settles_view:
  shows "length (calls (json_settles k w)) = length (calls w)"
    and "adapters (json_settles k w) = adapters w"
    and "controllers (json_settles k w) = controllers w"
    and "cancelled (json_settles k w) = cancelled w"
    and "fetches (json_settles k w) = fetches w"
  by (simp_all add: json_settles_def settle_def split: sum.splits stage.splits)

lemma file_settles_frame:
  shows "length (calls (file_settles k r w)) = length (calls w)"
    and "adapters (file_settles k r w) = adapters w"
    and "controllers (file_settles k r w) = controllers w"
    and "cancelled (file_settles k r w) = cancelled w"
  by (simp_all add: file_settles_def settle_def Let_def split: sum.splits)

lemma finish_fetches:
  assumes "a < length (adapters w)"
    and "get_prop ''CLOUDINARY_UPLOAD_PRESET'' (options (adapters w ! a)) = Inr p"
    and "get_prop ''CLOUDINARY_UPLOAD_URL'' (options (adapters w ! a)) = Inr u"
    and "upload a w = (k, w1)"
    and "file_answer env = Inr f"
  shows "fetches (finish env k w1) = fetches w @
           [\<lparr>url = u,
             req_init = [(''method'', IStr ''POST''),
                         (''body'', IForm [(''upload_preset'', p), (''file'', f)]),
                         (''signal'', ISignal (length (controllers w)))]\<rparr>]"
proof -
  note c = upload_call [OF assms(1,2,4)]
  have "fetches (file_settles k (Inr f) w1) = fetches w @
           [\<lparr>url = u,
             req_init = [(''method'', IStr ''POST''),
                         (''body'', IForm [(''upload_preset'', p), (''file'', f)]),
                         (''signal'', ISignal (length (controllers w)))]\<rparr>]"
    using assms(1,3) c by (subst file_settles_resolved_view(6) [where u = u]) simp_all
  then show ?thesis
    by (simp add: finish_def assms(5) json_settles_view fetch_settles_view)
qed

text \<open>When the loader's promise rejects, the call ends without a request.\<close>

lemma finish_no_file:
  assumes "upload a w = (k, w1)"
    and "file_answer env = Inl e"
  shows "fetches (finish env k w1) = fetches w"
proof -
  have "fetches w1 = fetches w"
    using assms(1) by (auto simp add: upload_def Let_def split: if_splits sum.splits)
  moreover have "fetches (file_settles k (Inl e) w1) = fetches w1"
    by (simp add: file_settles_def settle_def)
  ultimately show ?thesis
    by (simp add: finish_def assms(2) json_settles_view fetch_settles_view)
qed

lemma finish_outcome:
  assumes "a < length (adapters w)"
    and "truthy (options (adapters w ! a))"
    and "upload a w = (k, w1)"
  shows "outcome k (finish \<lparr>file_answer = Inr f, net_answer = Inr res\<rparr> k w1) =
       Some (case json_body res of None \<Rightarrow> Inl SyntaxError
             | Some v \<Rightarrow> (case get_prop ''secure_url'' v of Inl e \<Rightarrow> Inl e | Inr x \<Rightarrow> Inr (Obj [(''default'', x)])))"
proof -
  obtain p where p: "get_prop ''CLOUDINARY_UPLOAD_PRESET'' (options (adapters w ! a)) = Inr p"
    using assms(2) truthy_get_prop by blast
  obtain u where u: "get_prop ''CLOUDINARY_UPLOAD_URL'' (options (adapters w ! a)) = Inr u"
    using assms(2) truthy_get_prop by blast
  have k: "k = length (calls w)" and w1: "w1 = snd (upload a w)"
    using assms(3) by (simp_all add: upload_ready [OF assms(1) p])
  let ?w2 = "file_settles k (Inr f) w1"
  have s1: "k < length (calls w1)" "stage (calls w1 ! k) = AwaitingFile"
    "self (calls w1 ! k) = a" "options (adapters w1 ! a) = options (adapters w ! a)"
    "\<not> controllers w1 ! signal (calls w1 ! k)"
    using assms(1) by (simp_all add: w1 k upload_ready [OF assms(1) p])
  have s2: "k < length (calls ?w2)" "stage (calls ?w2 ! k) = AwaitingFetch"
    "\<not> controllers ?w2 ! signal (calls ?w2 ! k)"
    using s1 u by (simp_all add: file_settles_resolved)
  let ?w3 = "fetch_settles k True (Inr res) ?w2"
  have s3: "k < length (calls ?w3)" "stage (calls ?w3 ! k) = AwaitingJson res"
    "\<not> controllers ?w3 ! signal (calls ?w3 ! k)"
    using s2 by (simp_all add: fetch_settles_response)
  show ?thesis
    unfolding finish_def using s3 by (simp add: json_settles_parsed outcome_settle)
qed

lemma one_adapter_eq:
  "one_adapter =
     \<lparr>config = [(''simpleUpload'', cloudinary_options)], createUploadAdapter = None,
      warnings = [], adapters = [\<lparr>loader = 7, options = cloudinary_options, abortController = None\<rparr>],
      controllers = [], cancelled = [], fetches = [], calls = []\<rparr>"
  by (simp add: one_adapter_def new_Adapter_def empty_world_def)

lemma one_adapter_adapters:
  "adapters one_adapter = [\<lparr>loader = 7, options = cloudinary_options, abortController = None\<rparr>]"
  by (simp add: one_adapter_eq)

lemma upload_one_adapter:
  "upload 0 one_adapter =
     (0, \<lparr>config = [(''simpleUpload'', cloudinary_options)], createUploadAdapter = None,
      warnings = [], adapters = [\<lparr>loader = 7, options = cloudinary_options, abortController = Some 0\<rparr>],
      controllers = [False], cancelled = [], fetches = [],
      calls = [\<lparr>self = 0, signal = 0, data = [(''upload_preset'', Str ''preset1'')], stage = AwaitingFile\<rparr>]\<rparr>)"
  by (simp add: one_adapter_eq upload_def cloudinary_options_def)

lemma finish_view:
  shows "length (calls (finish env k w)) = length (calls w)"
    and "adapters (finish env k w) = adapters w"
    and "controllers (finish env k w) = controllers w"
    and "cancelled (finish env k w) = cancelled w"
  by (simp_all add: finish_def json_settles_view fetch_settles_view file_settles_frame)

lemma get_prop_total:
  "get_prop name v = Inr x \<Longrightarrow> \<exists>y. get_prop name' v = Inr y"
  by (cases v) simp_all

lemma init_documented:
  "init attachLinkToDocumentation (empty_world [(''simpleUpload'', documented_options)]) =
     Inr ((empty_world [(''simpleUpload'', documented_options)])
            \<lparr>createUploadAdapter := Some (AdapterFactory documented_options)\<rparr>)"
  by (simp add: init_def config_get_def empty_world_def documented_options_def Let_def)

lemma new_Adapter_view:
  shows "fst (new_Adapter l opts w) = length (adapters w)"
    and "adapters (snd (new_Adapter l opts w)) =
           adapters w @ [\<lparr>loader = l, options = opts, abortController = None\<rparr>]"
    and "controllers (snd (new_Adapter l opts w)) = controllers w"
    and "calls (snd (new_Adapter l opts w)) = calls w"
    and "fetches (snd (new_Adapter l opts w)) = fetches w"
    and "cancelled (snd (new_Adapter l opts w)) = cancelled w"
  by (simp_all add: new_Adapter_def)

section \<open>abort() and the end of a call\<close>

lemma abort_started:
  assumes "a < length (adapters w)" and "abortController (adapters w ! a) = Some c"
  shows "abort a w = Inr (signal_abort c w)"
  using assms by (simp add: abort_def)

lemma signal_abort_view:
  shows "calls (signal_abort c w) = calls w"
    and "adapters (signal_abort c w) = adapters w"
    and "fetches (signal_abort c w) = fetches w"
    and "warnings (signal_abort c w) = warnings w"
    and "config (signal_abort c w) = config w"
    and "createUploadAdapter (signal_abort c w) = createUploadAdapter w"
    and "controllers (signal_abort c w) = (controllers w)[c := True]"
    and "cancelled (signal_abort c w) =
           (if controllers w ! c then cancelled w else cancelled w @ [c])"
  by (simp_all add: signal_abort_def) (metis list_update_id)

lemma signal_abort_twice:
  "c < length (controllers w) \<Longrightarrow> signal_abort c (signal_abort c w) = signal_abort c w"
  by (simp add: signal_abort_def)

lemma file_settles_progress:
  "k < length (calls w) \<Longrightarrow> stage (calls (file_settles k r w) ! k) \<noteq> AwaitingFile"
  by (simp add: file_settles_def settle_def Let_def split: sum.splits)

lemma fetch_settles_progress:
  assumes "k < length (calls w)" and "stage (calls w ! k) \<noteq> AwaitingFile"
  shows "stage (calls (fetch_settles k b net w) ! k) \<noteq> AwaitingFile"
    and "stage (calls (fetch_settles k b net w) ! k) \<noteq> AwaitingFetch"
  using assms by (simp_all add: fetch_settles_def settle_def split: sum.splits)

lemma json_settles_progress:
  assumes "k < length (calls w)" and "stage (calls w ! k) \<noteq> AwaitingFile"
    and "stage (calls w ! k) \<noteq> AwaitingFetch"
  shows "\<exists>r. stage (calls (json_settles k w) ! k) = Settled r"
  using assms
  by (cases "stage (calls w ! k)") (simp_all add: json_settles_def settle_def split: sum.splits)

lemma finish_with_built: "finish_with True env k w = finish env k w"
  by (simp add: finish_with_def finish_def)

text \<open>
  Every call ends: once the promises it awaits have settled, whatever they settle with,
  the call is settled.
\<close>

lemma finish_settles:
  assumes "k < length (calls w)"
  shows "\<exists>r. outcome k (finish_with b env k w) = Some r"
proof -
  let ?w1 = "file_settles k (file_answer env) w"
  let ?w2 = "fetch_settles k b (net_answer env) ?w1"
  have 1: "k < length (calls ?w1)" "stage (calls ?w1 ! k) \<noteq> AwaitingFile"
    using assms by (simp_all add: file_settles_frame file_settles_progress)
  have 2: "k < length (calls ?w2)" "stage (calls ?w2 ! k) \<noteq> AwaitingFile"
    "stage (calls ?w2 ! k) \<noteq> AwaitingFetch"
    using 1 by (simp_all add: fetch_settles_view fetch_settles_progress)
  obtain r where "stage (calls (json_settles k ?w2) ! k) = Settled r"
    using json_settles_progress [OF 2] by blast
  then show ?thesis
    by (simp add: finish_with_def outcome_def)
qed

lemma upload_adapter:
  assumes "a < length (adapters w)"
  shows "adapters (snd (upload a w)) ! a =
           (adapters w ! a)\<lparr>abortController := Some (length (controllers w))\<rparr>"
    and "length (adapters (snd (upload a w))) = length (adapters w)"
    and "controllers (snd (upload a w)) = controllers w @ [False]"
    and "fst (upload a w) = length (calls w)"
    and "length (calls (snd (upload a w))) = Suc (length (calls w))"
    and "cancelled (snd (upload a w)) = cancelled w"
  using assms by (simp_all add: upload_def Let_def split: sum.splits)

lemma abort_pending_generic:
  assumes "k < length (calls w)"
    and "\<And>r. stage (calls w ! k) \<noteq> Settled r"
    and "signal (calls w ! k) = c"
    and "c < length (controllers w)"
    and "file_answer env = Inr f"
    and "get_prop ''CLOUDINARY_UPLOAD_URL'' (options (adapters w ! self (calls w ! k))) = Inr u"
  shows "outcome k (finish env k (signal_abort c w)) = Some (Inl AbortError)"
proof -
  let ?w = "signal_abort c w"
  have v: "calls ?w = calls w" "adapters ?w = adapters w" "controllers ?w ! c = True"
    using assms(4) by (simp_all add: signal_abort_view)
  show ?thesis
  proof (cases "stage (calls w ! k)")
    case AwaitingFile
    let ?w1 = "file_settles k (Inr f) ?w"
    have pre: "k < length (calls ?w)" "stage (calls ?w ! k) = AwaitingFile"
      "get_prop ''CLOUDINARY_UPLOAD_URL'' (options (adapters ?w ! self (calls ?w ! k))) = Inr u"
      using assms(1,6) AwaitingFile by (simp_all add: v)
    have 1: "k < length (calls ?w1)" "stage (calls ?w1 ! k) = AwaitingFetch"
      "controllers ?w1 ! signal (calls ?w1 ! k)"
      using assms(1,3) v(3)
      by (simp_all add: file_settles_resolved_view [OF pre] v(1))
    have "outcome k (fetch_settles k True (net_answer env) ?w1) = Some (Inl AbortError)"
      using 1 by (simp add: fetch_settles_aborted outcome_settle)
    then have "outcome k (json_settles k (fetch_settles k True (net_answer env) ?w1)) =
                 Some (Inl AbortError)"
      by (simp add: outcome_def json_settles_def split: stage.splits)
    then show ?thesis
      by (simp add: finish_def assms(5))
  next
    case AwaitingFetch
    have 0: "file_settles k (file_answer env) ?w = ?w"
      using AwaitingFetch by (simp add: file_settles_idle v)
    have "outcome k (fetch_settles k True (net_answer env) ?w) = Some (Inl AbortError)"
      using assms(1,3) AwaitingFetch v(3)
      by (simp add: fetch_settles_aborted outcome_settle v(1))
    then have "outcome k (json_settles k (fetch_settles k True (net_answer env) ?w)) =
                 Some (Inl AbortError)"
      by (simp add: outcome_def json_settles_def split: stage.splits)
    then show ?thesis
      by (simp add: finish_def 0)
  next
    case (AwaitingJson res)
    have 0: "file_settles k (file_answer env) ?w = ?w"
      using AwaitingJson by (simp add: file_settles_idle v)
    have 1: "fetch_settles k True (net_answer env) ?w = ?w"
      using AwaitingJson by (simp add: fetch_settles_idle v)
    have "outcome k (json_settles k ?w) = Some (Inl AbortError)"
      using assms(1,3) AwaitingJson v(3)
      by (simp add: json_settles_aborted [where res = res] outcome_settle v(1))
    then show ?thesis
      by (simp add: finish_def 0 1)
  next
    case (Settled r)
    then show ?thesis using assms(2) by simp
  qed
qed

text \<open>
  A request that the platform cannot construct ends the call with the TypeError of
  \<^verbatim>\<open>fetch\<close>, whether or not \<^verbatim>\<open>abort()\<close> was called before: the abort does not turn this
  failure into an AbortError.
\<close>

lemma refused_request_rejects:
  assumes "k < length (calls w)"
    and "stage (calls w ! k) = AwaitingFile \<or> stage (calls w ! k) = AwaitingFetch"
    and "file_answer env = Inr f"
    and "get_prop ''CLOUDINARY_UPLOAD_URL'' (options (adapters w ! self (calls w ! k))) = Inr u"
  shows "outcome k (finish_with False env k w) = Some (Inl TypeError)"
proof -
  let ?w1 = "file_settles k (file_answer env) w"
  have 1: "k < length (calls ?w1) \<and> stage (calls ?w1 ! k) = AwaitingFetch"
    using assms(2)
  proof (elim disjE)
    assume "stage (calls w ! k) = AwaitingFile"
    then show ?thesis
      using assms(1,4) by (simp add: assms(3) file_settles_resolved_view)
  next
    assume "stage (calls w ! k) = AwaitingFetch"
    then show ?thesis
      using assms(1) by (simp add: file_settles_idle)
  qed
  have "outcome k (fetch_settles k False (net_answer env) ?w1) = Some (Inl TypeError)"
    using 1 by (simp add: fetch_settles_refused outcome_settle)
  then show ?thesis
    by (simp add: finish_with_def outcome_def json_settles_def split: stage.splits)
qed

lemma abort_refused_request:
  assumes "a < length (adapters w)"
    and "get_prop ''CLOUDINARY_UPLOAD_URL'' (options (adapters w ! a)) = Inr u"
    and "upload a w = (k, w1)"
    and "file_answer env = Inr f"
    and "\<not> constructs u"
  shows "abort a w1 = Inr (signal_abort (length (controllers w)) w1)
       \<and> outcome k
           (finish_with (constructs u) env k (signal_abort (length (controllers w)) w1)) =
           Some (Inl TypeError)"
proof -
  obtain p where p: "get_prop ''CLOUDINARY_UPLOAD_PRESET'' (options (adapters w ! a)) = Inr p"
    using assms(2) get_prop_total by blast
  note c = upload_call [OF assms(1) p assms(3)]
  let ?w3 = "signal_abort (length (controllers w)) w1"
  have 1: "abort a w1 = Inr ?w3"
    using assms(1) c(4,5) by (simp add: abort_def)
  have "k < length (calls ?w3)"
    and "stage (calls ?w3 ! k) = AwaitingFile \<or> stage (calls ?w3 ! k) = AwaitingFetch"
    and "get_prop ''CLOUDINARY_UPLOAD_URL'' (options (adapters ?w3 ! self (calls ?w3 ! k))) = Inr u"
    using c(1,2,3,4) assms(2) by (simp_all add: signal_abort_view)
  then have "outcome k (finish_with False env k ?w3) = Some (Inl TypeError)"
    using assms(4) by (intro refused_request_rejects) simp_all
  then show ?thesis
    using 1 assms(5) by simp
qed

lemma finish_one_adapter_outcome:
  "outcome 0 (finish (answered cdn_response) 0 (snd (upload 0 one_adapter))) =
     Some (Inr (Obj [(''default'', Str ''https://cdn.example.com/x.png'')]))"
  using finish_outcome [where a = 0 and w = one_adapter and k = 0
      and ?w1.0 = "snd (upload 0 one_adapter)" and f = "File ''x.png''"
      and res = cdn_response]
  by (simp add: upload_one_adapter one_adapter_adapters cloudinary_options_def
      answered_def cdn_response_def)

lemma outcome_pending:
  assumes "\<And>r. stage (calls w ! k) \<noteq> Settled r"
  shows "outcome k w = None"
  using assms by (cases "stage (calls w ! k)") (auto simp add: outcome_def)

lemma finish_fetches_generic:
  assumes "k < length (calls w)"
    and "get_prop ''CLOUDINARY_UPLOAD_URL'' (options (adapters w ! self (calls w ! k))) = Inr u"
    and "file_answer env = Inr f"
  shows "fetches (finish env k w) =
           (if stage (calls w ! k) = AwaitingFile
            then fetches w @
              [\<lparr>url = u,
                req_init = [(''method'', IStr ''POST''),
                            (''body'', IForm (data (calls w ! k) @ [(''file'', f)])),
                            (''signal'', ISignal (signal (calls w ! k)))]\<rparr>]
            else fetches w)"
proof (cases "stage (calls w ! k) = AwaitingFile")
  case True
  then show ?thesis
    using assms
    by (simp add: finish_def json_settles_view fetch_settles_view file_settles_resolved_view)
next
  case False
  then show ?thesis
    by (simp add: finish_def json_settles_view fetch_settles_view file_settles_idle)
qed

section \<open>The result of upload()\<close>

text \<open>
  C1. On an adapter whose options are an object, when the loader yields its file and the
  request is answered by a response (of any status, so also a successful one) whose JSON
  body is an object with the string \<open>u\<close> under \<^verbatim>\<open>secure_url\<close>, the call of \<^verbatim>\<open>upload()\<close>
  resolves with \<^verbatim>\<open>{ default: u }\<close>.
\<close>

theorem upload_resolves_with_secure_url:
  assumes "a < length (adapters w)"
    and "truthy (options (adapters w ! a))"
    and "upload a w = (k, w1)"
    and "json_body res = Some (Obj fs)"
    and "map_of fs ''secure_url'' = Some (Str u)"
  shows "outcome k (finish \<lparr>file_answer = Inr f, net_answer = Inr res\<rparr> k w1) =
           Some (Inr (Obj [(''default'', Str u)]))"
  using assms(4,5) by (simp add: finish_outcome [OF assms(1,2,3)])

theorem upload_resolves_with_secure_url_witness:
  "0 < length (adapters one_adapter)
   \<and> truthy (options (adapters one_adapter ! 0))
   \<and> upload 0 one_adapter = (0, snd (upload 0 one_adapter))
   \<and> json_body cdn_response =
       Some (Obj [(''secure_url'', Str ''https://cdn.example.com/x.png'')])
   \<and> map_of [(''secure_url'', Str ''https://cdn.example.com/x.png'')] ''secure_url'' =
       Some (Str ''https://cdn.example.com/x.png'')
   \<and> outcome 0
         (finish \<lparr>file_answer = Inr (File ''x.png''), net_answer = Inr cdn_response\<rparr>
            0 (snd (upload 0 one_adapter))) =
       Some (Inr (Obj [(''default'', Str ''https://cdn.example.com/x.png'')]))"
  using upload_resolves_with_secure_url
          [where a = 0 and w = one_adapter and k = 0
             and ?w1.0 = "snd (upload 0 one_adapter)" and res = cdn_response
             and fs = "[(''secure_url'', Str ''https://cdn.example.com/x.png'')]"
             and u = "''https://cdn.example.com/x.png''" and f = "File ''x.png''"]
  by (simp add: upload_one_adapter one_adapter_adapters cloudinary_options_def cdn_response_def)

text \<open>
  C2, as stated, fails: on an HTTP 500 whose body is JSON, \<^verbatim>\<open>upload()\<close> does not reject.
  It resolves, here with \<^verbatim>\<open>{ default: undefined }\<close>, since the error body has no
  \<^verbatim>\<open>secure_url\<close>.
\<close>

theorem upload_http_500_counterexample:
  "outcome 0 (finish (answered error_response) 0 (snd (upload 0 one_adapter))) =
     Some (Inr (Obj [(''default'', Undefined)]))"
  using finish_outcome [where a = 0 and w = one_adapter and k = 0
      and ?w1.0 = "snd (upload 0 one_adapter)" and f = "File ''x.png''"
      and res = error_response]
  by (simp add: upload_one_adapter one_adapter_adapters cloudinary_options_def
      answered_def error_response_def)

text \<open>
  C2, amended. When the body of the response is not JSON, \<^verbatim>\<open>upload()\<close> rejects with the
  parser's SyntaxError and gives no result, whatever the status of the response. The
  status itself is never looked at: changing it never changes the result of the call.
\<close>

theorem upload_rejects_unparseable_body:
  assumes "a < length (adapters w)"
    and "truthy (options (adapters w ! a))"
    and "upload a w = (k, w1)"
    and "json_body res = None"
  shows "outcome k (finish \<lparr>file_answer = Inr f, net_answer = Inr res\<rparr> k w1) =
           Some (Inl SyntaxError)
         \<and> outcome k (finish \<lparr>file_answer = Inr f,
                                net_answer = Inr (res'\<lparr>status := s\<rparr>)\<rparr> k w1) =
           outcome k (finish \<lparr>file_answer = Inr f, net_answer = Inr res'\<rparr> k w1)"
  using assms(4) by (simp add: finish_outcome [OF assms(1,2,3)])

theorem upload_rejects_unparseable_body_witness:
  "0 < length (adapters one_adapter)
   \<and> truthy (options (adapters one_adapter ! 0))
   \<and> upload 0 one_adapter = (0, snd (upload 0 one_adapter))
   \<and> json_body garbled_response = None
   \<and> outcome 0
         (finish \<lparr>file_answer = Inr (File ''x.png''), net_answer = Inr garbled_response\<rparr>
            0 (snd (upload 0 one_adapter))) = Some (Inl SyntaxError)
   \<and> outcome 0
         (finish \<lparr>file_answer = Inr (File ''x.png''),
                  net_answer = Inr (cdn_response\<lparr>status := 500\<rparr>)\<rparr>
            0 (snd (upload 0 one_adapter))) =
       outcome 0
         (finish \<lparr>file_answer = Inr (File ''x.png''), net_answer = Inr cdn_response\<rparr>
            0 (snd (upload 0 one_adapter)))"
  using upload_rejects_unparseable_body
          [where a = 0 and w = one_adapter and k = 0
             and ?w1.0 = "snd (upload 0 one_adapter)" and res = garbled_response
             and f = "File ''x.png''" and res' = cdn_response and s = 500]
  by (simp add: upload_one_adapter one_adapter_adapters cloudinary_options_def
      garbled_response_def)

section \<open>The request of upload()\<close>

text \<open>
  C8. On an adapter whose options are an object and whose loader yields its file, a call
  of \<^verbatim>\<open>upload()\<close> calls \<^verbatim>\<open>fetch\<close> exactly once from its start to its end, whatever the
  network answers (so a failure is not retried): nothing is sent before the file is there,
  and at the end the requests are the earlier ones and one more. That request has method
  POST, a form body holding the preset of the options under \<^verbatim>\<open>upload_preset\<close> and the
  loader's file under \<^verbatim>\<open>file\<close>, and as its signal the controller that the adapter
  keeps in \<^verbatim>\<open>abortController\<close>.
\<close>

theorem upload_issues_one_post:
  assumes "a < length (adapters w)"
    and "get_prop ''CLOUDINARY_UPLOAD_PRESET'' (options (adapters w ! a)) = Inr p"
    and "upload a w = (k, w1)"
    and "file_answer env = Inr f"
  shows "fetches w1 = fetches w
       \<and> (\<exists>u. fetches (finish env k w1) = fetches w @
             [\<lparr>url = u,
               req_init = [(''method'', IStr ''POST''),
                           (''body'', IForm [(''upload_preset'', p), (''file'', f)]),
                           (''signal'', ISignal (length (controllers w)))]\<rparr>])
       \<and> abortController (adapters (finish env k w1) ! a) = Some (length (controllers w))"
proof -
  obtain u where u: "get_prop ''CLOUDINARY_UPLOAD_URL'' (options (adapters w ! a)) = Inr u"
    using assms(2) get_prop_total by blast
  note c = upload_call [OF assms(1,2,3)]
  have "abortController (adapters (finish env k w1) ! a) = Some (length (controllers w))"
    using c by (simp add: finish_view)
  then show ?thesis
    using c(7) finish_fetches [OF assms(1,2) u assms(3,4)] by blast
qed

theorem upload_issues_one_post_witness:
  "0 < length (adapters one_adapter)
   \<and> get_prop ''CLOUDINARY_UPLOAD_PRESET'' (options (adapters one_adapter ! 0)) =
       Inr (Str ''preset1'')
   \<and> file_answer (answered error_response) = Inr (File ''x.png'')
   \<and> fetches (snd (upload 0 one_adapter)) = fetches one_adapter
   \<and> (\<exists>u. fetches (finish (answered error_response) 0 (snd (upload 0 one_adapter))) =
         fetches one_adapter @
         [\<lparr>url = u,
           req_init = [(''method'', IStr ''POST''),
                       (''body'', IForm [(''upload_preset'', Str ''preset1''),
                                         (''file'', File ''x.png'')]),
                       (''signal'', ISignal (length (controllers one_adapter)))]\<rparr>])"
proof -
  have h1: "0 < length (adapters one_adapter)"
    by (simp add: one_adapter_adapters)
  have h2: "get_prop ''CLOUDINARY_UPLOAD_PRESET'' (options (adapters one_adapter ! 0)) =
              Inr (Str ''preset1'')"
    by (simp add: one_adapter_adapters cloudinary_options_def)
  have h3: "upload 0 one_adapter = (0, snd (upload 0 one_adapter))"
    by (simp add: upload_one_adapter)
  have h4: "file_answer (answered error_response) = Inr (File ''x.png'')"
    by (simp add: answered_def)
  show ?thesis
    using upload_issues_one_post [OF h1 h2 h3 h4] h1 h2 h4 by blast
qed

text \<open>
  C9. The request goes to the \<^verbatim>\<open>CLOUDINARY_UPLOAD_URL\<close> property of the options, with
  the \<^verbatim>\<open>CLOUDINARY_UPLOAD_PRESET\<close> property as preset; the \<^verbatim>\<open>uploadUrl\<close> property that
  \<^verbatim>\<open>init()\<close> tests is not read. So there is a configuration that \<^verbatim>\<open>init()\<close> accepts (it
  has \<^verbatim>\<open>uploadUrl\<close> and no \<^verbatim>\<open>CLOUDINARY_UPLOAD_URL\<close>) for which an adapter made by the
  registered factory posts to \<^verbatim>\<open>undefined\<close>.
\<close>

theorem upload_posts_to_cloudinary_url:
  assumes "a < length (adapters w)"
    and "get_prop ''CLOUDINARY_UPLOAD_PRESET'' (options (adapters w ! a)) = Inr p"
    and "get_prop ''CLOUDINARY_UPLOAD_URL'' (options (adapters w ! a)) = Inr u"
    and "upload a w = (k, w1)"
    and "file_answer env = Inr f"
  shows "fetches (finish env k w1) = fetches w @
           [\<lparr>url = u,
             req_init = [(''method'', IStr ''POST''),
                         (''body'', IForm [(''upload_preset'', p), (''file'', f)]),
                         (''signal'', ISignal (length (controllers w)))]\<rparr>]
       \<and> (\<exists>opts wi wa k' w1'.
             get_prop ''uploadUrl'' opts = Inr (Str ''http://example.com'')
           \<and> get_prop ''CLOUDINARY_UPLOAD_URL'' opts = Inr Undefined
           \<and> init id (empty_world [(''simpleUpload'', opts)]) = Inr wi
           \<and> createUploadAdapter wi = Some (AdapterFactory opts)
           \<and> apply_factory (AdapterFactory opts) 7 wi = (0, wa)
           \<and> upload 0 wa = (k', w1')
           \<and> map url (fetches (finish (answered cdn_response) k' w1')) = [Undefined])"
proof -
  let ?wi = "(empty_world [(''simpleUpload'', documented_options)])
               \<lparr>createUploadAdapter := Some (AdapterFactory documented_options)\<rparr>"
  let ?wa = "snd (new_Adapter 7 documented_options ?wi)"
  let ?k = "fst (upload 0 ?wa)"
  let ?w1 = "snd (upload 0 ?wa)"
  have a: "0 < length (adapters ?wa)" "adapters ?wa ! 0 = \<lparr>loader = 7, options = documented_options, abortController = None\<rparr>"
    "fetches ?wa = []"
    by (simp_all add: new_Adapter_view empty_world_def)
  have p: "get_prop ''CLOUDINARY_UPLOAD_PRESET'' (options (adapters ?wa ! 0)) = Inr Undefined"
    and u: "get_prop ''CLOUDINARY_UPLOAD_URL'' (options (adapters ?wa ! 0)) = Inr Undefined"
    unfolding a(2) by (simp_all add: documented_options_def)
  have f: "file_answer (answered cdn_response) = Inr (File ''x.png'')"
    by (simp add: answered_def)
  have m: "map url (fetches (finish (answered cdn_response) ?k ?w1)) = [Undefined]"
    using finish_fetches [OF a(1) p u _ f, of ?k ?w1] a(3) by simp
  have g: "get_prop ''uploadUrl'' documented_options = Inr (Str ''http://example.com'')"
    "get_prop ''CLOUDINARY_UPLOAD_URL'' documented_options = Inr Undefined"
    by (simp_all add: documented_options_def)
  have af: "apply_factory (AdapterFactory documented_options) 7 ?wi = (0, ?wa)"
    by (simp add: new_Adapter_def empty_world_def)
  have ex: "\<exists>opts wi wa k' w1'.
             get_prop ''uploadUrl'' opts = Inr (Str ''http://example.com'')
           \<and> get_prop ''CLOUDINARY_UPLOAD_URL'' opts = Inr Undefined
           \<and> init id (empty_world [(''simpleUpload'', opts)]) = Inr wi
           \<and> createUploadAdapter wi = Some (AdapterFactory opts)
           \<and> apply_factory (AdapterFactory opts) 7 wi = (0, wa)
           \<and> upload 0 wa = (k', w1')
           \<and> map url (fetches (finish (answered cdn_response) k' w1')) = [Undefined]"
    apply (rule exI [where x = documented_options])
    apply (rule exI [where x = ?wi])
    apply (rule exI [where x = ?wa])
    apply (rule exI [where x = ?k])
    apply (rule exI [where x = ?w1])
    using m g af apply (simp add: init_documented)
    done
  show ?thesis
    using ex by (simp add: finish_fetches [OF assms])
qed

theorem upload_posts_to_cloudinary_url_witness:
  "0 < length (adapters one_adapter)
   \<and> get_prop ''CLOUDINARY_UPLOAD_PRESET'' (options (adapters one_adapter ! 0)) =
       Inr (Str ''preset1'')
   \<and> get_prop ''CLOUDINARY_UPLOAD_URL'' (options (adapters one_adapter ! 0)) =
       Inr (Str ''https://api.cloudinary.com/v1_1/demo/upload'')
   \<and> file_answer (answered cdn_response) = Inr (File ''x.png'')
   \<and> fetches (finish (answered cdn_response) 0 (snd (upload 0 one_adapter))) =
       fetches one_adapter @
       [\<lparr>url = Str ''https://api.cloudinary.com/v1_1/demo/upload'',
         req_init = [(''method'', IStr ''POST''),
                     (''body'', IForm [(''upload_preset'', Str ''preset1''),
                                       (''file'', File ''x.png'')]),
                     (''signal'', ISignal (length (controllers one_adapter)))]\<rparr>]"
proof -
  have h1: "0 < length (adapters one_adapter)"
    by (simp add: one_adapter_adapters)
  have h2: "get_prop ''CLOUDINARY_UPLOAD_PRESET'' (options (adapters one_adapter ! 0)) =
              Inr (Str ''preset1'')"
    by (simp add: one_adapter_adapters cloudinary_options_def)
  have h3: "get_prop ''CLOUDINARY_UPLOAD_URL'' (options (adapters one_adapter ! 0)) =
              Inr (Str ''https://api.cloudinary.com/v1_1/demo/upload'')"
    by (simp add: one_adapter_adapters cloudinary_options_def)
  have h4: "upload 0 one_adapter = (0, snd (upload 0 one_adapter))"
    by (simp add: upload_one_adapter)
  have h5: "file_answer (answered cdn_response) = Inr (File ''x.png'')"
    by (simp add: answered_def)
  show ?thesis
    using upload_posts_to_cloudinary_url [OF h1 h2 h3 h4 h5] h1 h2 h3 h5 by blast
qed

text \<open>
  C10. The headers of the configuration never reach the request: the second argument of
  \<^verbatim>\<open>fetch\<close> has the keys \<^verbatim>\<open>method\<close>, \<^verbatim>\<open>body\<close> and \<^verbatim>\<open>signal\<close> only, the body holds the
  preset and the file only, and the same call on an adapter whose options have any other
  value \<open>h\<close> under \<^verbatim>\<open>headers\<close> makes the very same requests.
\<close>

theorem upload_ignores_headers:
  assumes "a < length (adapters w)"
    and "options (adapters w ! a) = Obj fs"
    and "upload a w = (k, w1)"
    and "file_answer env = Inr f"
    and "w' = w\<lparr>adapters := (adapters w)[a := (adapters w ! a)\<lparr>options := Obj ((''headers'', h) # fs)\<rparr>]\<rparr>"
    and "upload a w' = (k', w1')"
  shows "fetches (finish env k' w1') = fetches (finish env k w1)
       \<and> fetches (finish env k w1) = fetches w @
           [\<lparr>url = (case map_of fs ''CLOUDINARY_UPLOAD_URL'' of
                       None \<Rightarrow> Undefined | Some v \<Rightarrow> v),
             req_init =
               [(''method'', IStr ''POST''),
                (''body'', IForm [(''upload_preset'',
                                   case map_of fs ''CLOUDINARY_UPLOAD_PRESET'' of
                                     None \<Rightarrow> Undefined | Some v \<Rightarrow> v),
                                 (''file'', f)]),
                (''signal'', ISignal (length (controllers w)))]\<rparr>]"
proof -
  let ?p = "case map_of fs ''CLOUDINARY_UPLOAD_PRESET'' of None \<Rightarrow> Undefined | Some v \<Rightarrow> v"
  let ?u = "case map_of fs ''CLOUDINARY_UPLOAD_URL'' of None \<Rightarrow> Undefined | Some v \<Rightarrow> v"
  have p: "get_prop ''CLOUDINARY_UPLOAD_PRESET'' (options (adapters w ! a)) = Inr ?p"
    and u: "get_prop ''CLOUDINARY_UPLOAD_URL'' (options (adapters w ! a)) = Inr ?u"
    by (simp_all add: assms(2))
  have a': "a < length (adapters w')"
    and o': "options (adapters w' ! a) = Obj ((''headers'', h) # fs)"
    and same: "fetches w' = fetches w" "controllers w' = controllers w"
    using assms(1) by (simp_all add: assms(5))
  have p': "get_prop ''CLOUDINARY_UPLOAD_PRESET'' (options (adapters w' ! a)) = Inr ?p"
    and u': "get_prop ''CLOUDINARY_UPLOAD_URL'' (options (adapters w' ! a)) = Inr ?u"
    by (simp_all add: o')
  show ?thesis
    by (simp add: finish_fetches [OF assms(1) p u assms(3,4)]
        finish_fetches [OF a' p' u' assms(6,4)] same)
qed

theorem upload_ignores_headers_witness:
  "0 < length (adapters one_adapter)
   \<and> file_answer (answered cdn_response) = Inr (File ''x.png'')
   \<and> fetches (finish (answered cdn_response) 0
         (snd (upload 0 (one_adapter\<lparr>adapters := (adapters one_adapter)
            [0 := (adapters one_adapter ! 0)\<lparr>options := Obj ((''headers'', Obj [(''Authorization'', Str ''Bearer t'')]) #
               [(''uploadUrl'', Str ''http://example.com''),
                (''headers'', Obj [(''X-CSRF-TOKEN'', Str ''CSRF-Token'')]),
                (''CLOUDINARY_UPLOAD_URL'', Str ''https://api.cloudinary.com/v1_1/demo/upload''),
                (''CLOUDINARY_UPLOAD_PRESET'', Str ''preset1'')])\<rparr>]\<rparr>)))) =
       fetches (finish (answered cdn_response) 0 (snd (upload 0 one_adapter)))"
proof -
  let ?fs = "[(''uploadUrl'', Str ''http://example.com''),
              (''headers'', Obj [(''X-CSRF-TOKEN'', Str ''CSRF-Token'')]),
              (''CLOUDINARY_UPLOAD_URL'', Str ''https://api.cloudinary.com/v1_1/demo/upload''),
              (''CLOUDINARY_UPLOAD_PRESET'', Str ''preset1'')]"
  let ?w' = "one_adapter\<lparr>adapters := (adapters one_adapter)
            [0 := (adapters one_adapter ! 0)\<lparr>options :=
                Obj ((''headers'', Obj [(''Authorization'', Str ''Bearer t'')]) # ?fs)\<rparr>]\<rparr>"
  have h1: "0 < length (adapters one_adapter)"
    by (simp add: one_adapter_adapters)
  have h2: "options (adapters one_adapter ! 0) = Obj ?fs"
    by (simp add: one_adapter_adapters cloudinary_options_def)
  have h3: "upload 0 one_adapter = (0, snd (upload 0 one_adapter))"
    by (simp add: upload_one_adapter)
  have h4: "file_answer (answered cdn_response) = Inr (File ''x.png'')"
    by (simp add: answered_def)
  have h5: "?w' = ?w'" by (rule refl)
  have h6: "upload 0 ?w' = (0, snd (upload 0 ?w'))"
    by (simp add: upload_def one_adapter_eq Let_def)
  show ?thesis
    using upload_ignores_headers [OF h1 h2 h3 h4 h5 h6] h1 h4 by blast
qed

section \<open>abort()\<close>

text \<open>
  C3, as stated, fails: on an adapter on which \<^verbatim>\<open>upload()\<close> was never called the
  property \<^verbatim>\<open>abortController\<close> is undefined, and \<^verbatim>\<open>abort()\<close> throws a TypeError.
\<close>

theorem abort_before_upload_counterexample:
  "abort 0 one_adapter = Inl TypeError"
  by (simp add: abort_def one_adapter_adapters)

text \<open>
  C7. On an adapter whose options are an object, whose loader yields its file and whose
  request the platform can construct (\<open>constructs\<close> is the platform's test of the URL
  handed to \<^verbatim>\<open>fetch\<close>: it parses and has no credentials), \<^verbatim>\<open>abort()\<close> called while the
  call of \<^verbatim>\<open>upload()\<close> is pending (waiting for the file, for the response, or for the
  body) throws nothing, and the call then ends rejected with an AbortError whatever the
  network answers. Exactly one abort event is fired, on the controller whose signal the
  request of this call carries, and a second \<^verbatim>\<open>abort()\<close> fires nothing more. (A request
  that cannot be constructed ends the call with a TypeError instead, aborted or not:
  lemma \<open>abort_refused_request\<close>.)
\<close>

theorem abort_pending_upload:
  assumes "a < length (adapters w)"
    and "truthy (options (adapters w ! a))"
    and "upload a w = (k, w1)"
    and "w2 = w1 \<or> w2 = file_settles k (Inr f) w1
         \<or> w2 = fetch_settles k (constructs u) (Inr res) (file_settles k (Inr f) w1)"
    and "file_answer env = Inr f'"
    and "get_prop ''CLOUDINARY_UPLOAD_URL'' (options (adapters w ! a)) = Inr u"
    and "constructs u"
  shows "outcome k w2 = None
       \<and> abort a w2 = Inr (signal_abort (length (controllers w)) w2)
       \<and> outcome k (finish_with (constructs u) env k (signal_abort (length (controllers w)) w2)) =
           Some (Inl AbortError)
       \<and> cancelled (finish_with (constructs u) env k (signal_abort (length (controllers w)) w2)) =
           cancelled w @ [length (controllers w)]
       \<and> map (\<lambda>g. map_of (req_init g) ''signal'')
             (drop (length (fetches w))
                (fetches (finish_with (constructs u) env k (signal_abort (length (controllers w)) w2)))) =
           [Some (ISignal (length (controllers w)))]
       \<and> abort a (signal_abort (length (controllers w)) w2) =
           Inr (signal_abort (length (controllers w)) w2)"
proof -
  let ?c = "length (controllers w)"
  let ?sig = "\<lambda>g. map_of (req_init g) ''signal''"
  have built: "constructs u = True"
    and fw: "\<And>x. finish_with (constructs u) env k x = finish env k x"
    using assms(7) by (simp_all add: finish_with_built)
  obtain p where p: "get_prop ''CLOUDINARY_UPLOAD_PRESET'' (options (adapters w ! a)) = Inr p"
    using assms(2) truthy_get_prop by blast
  note u = assms(6)
  note c = upload_call [OF assms(1) p assms(3)]
  have s1: "k < length (calls w1)" "stage (calls w1 ! k) = AwaitingFile"
    "get_prop ''CLOUDINARY_UPLOAD_URL'' (options (adapters w1 ! self (calls w1 ! k))) = Inr u"
    using c u by simp_all
  let ?wf = "file_settles k (Inr f) w1"
  note fv = file_settles_resolved_view [OF s1, of f]
  have s2: "k < length (calls ?wf)" "stage (calls ?wf ! k) = AwaitingFetch"
    "\<not> controllers ?wf ! signal (calls ?wf ! k)"
    using s1(1) c(3,6) by (simp_all add: fv)
  let ?wr = "fetch_settles k True (Inr res) ?wf"
  have wr: "?wr = ?wf\<lparr>calls := (calls ?wf)[k := (calls ?wf ! k)\<lparr>stage := AwaitingJson res\<rparr>]\<rparr>"
    using s2 by (rule fetch_settles_response)
  have common: "k < length (calls w2) \<and> (\<forall>r. stage (calls w2 ! k) \<noteq> Settled r)
      \<and> signal (calls w2 ! k) = ?c \<and> self (calls w2 ! k) = a
      \<and> adapters w2 = adapters w1 \<and> controllers w2 = controllers w1
      \<and> cancelled w2 = cancelled w
      \<and> (stage (calls w2 ! k) = AwaitingFile \<and> fetches w2 = fetches w
         \<or> stage (calls w2 ! k) \<noteq> AwaitingFile
           \<and> map ?sig (drop (length (fetches w)) (fetches w2)) = [Some (ISignal ?c)])"
    using assms(4) unfolding built
  proof (elim disjE)
    assume "w2 = w1"
    then show ?thesis using s1(1) c(3-) by simp
  next
    assume "w2 = ?wf"
    then show ?thesis using s1(1) c(3-) by (simp add: fv)
  next
    assume "w2 = ?wr"
    then show ?thesis using s1(1) c(3-) by (simp add: wr fv)
  qed
  let ?w3 = "signal_abort ?c w2"
  have pend: "\<And>r. stage (calls w2 ! k) \<noteq> Settled r"
    using common by blast
  have a2: "a < length (adapters w2)"
    and ac: "abortController (adapters w2 ! a) = Some ?c"
    and cl: "?c < length (controllers w2)" and fl: "\<not> controllers w2 ! ?c"
    and u2: "get_prop ''CLOUDINARY_UPLOAD_URL'' (options (adapters w2 ! self (calls w2 ! k))) = Inr u"
    using common assms(1) c(4-6) u by simp_all
  have 1: "outcome k w2 = None"
    using pend by (rule outcome_pending)
  have 2: "abort a w2 = Inr ?w3"
    using a2 ac by (rule abort_started)
  have 3: "outcome k (finish env k ?w3) = Some (Inl AbortError)"
    using common pend cl assms(5) u2 by (intro abort_pending_generic) simp_all
  have 4: "cancelled (finish env k ?w3) = cancelled w @ [?c]"
    using common fl by (simp add: finish_view signal_abort_view)
  have u3: "get_prop ''CLOUDINARY_UPLOAD_URL'' (options (adapters ?w3 ! self (calls ?w3 ! k))) = Inr u"
    using u2 by (simp add: signal_abort_view)
  have k3: "k < length (calls ?w3)"
    using common by (simp add: signal_abort_view)
  have 5: "map ?sig (drop (length (fetches w)) (fetches (finish env k ?w3))) = [Some (ISignal ?c)]"
    using common
    by (auto simp add: finish_fetches_generic [OF k3 u3 assms(5)] signal_abort_view)
  have 6: "abort a ?w3 = Inr ?w3"
    using a2 ac cl by (simp add: abort_def signal_abort_view signal_abort_twice)
  show ?thesis
    unfolding fw using 1 2 3 4 5 6 by blast
qed

theorem abort_pending_upload_witness:
  "0 < length (adapters one_adapter)
   \<and> truthy (options (adapters one_adapter ! 0))
   \<and> file_answer (answered cdn_response) = Inr (File ''x.png'')
   \<and> get_prop ''CLOUDINARY_UPLOAD_URL'' (options (adapters one_adapter ! 0)) =
       Inr (Str ''https://api.cloudinary.com/v1_1/demo/upload'')
   \<and> Str ''https://api.cloudinary.com/v1_1/demo/upload'' \<noteq> Str ''http://''
   \<and> outcome 0 (file_settles 0 (Inr (File ''x.png'')) (snd (upload 0 one_adapter))) = None
   \<and> abort 0 (file_settles 0 (Inr (File ''x.png'')) (snd (upload 0 one_adapter))) =
       Inr (signal_abort (length (controllers one_adapter))
              (file_settles 0 (Inr (File ''x.png'')) (snd (upload 0 one_adapter))))
   \<and> outcome 0
         (finish_with (Str ''https://api.cloudinary.com/v1_1/demo/upload'' \<noteq> Str ''http://'')
            (answered cdn_response) 0
            (signal_abort (length (controllers one_adapter))
               (file_settles 0 (Inr (File ''x.png'')) (snd (upload 0 one_adapter))))) =
       Some (Inl AbortError)
   \<and> cancelled
         (finish_with (Str ''https://api.cloudinary.com/v1_1/demo/upload'' \<noteq> Str ''http://'')
            (answered cdn_response) 0
            (signal_abort (length (controllers one_adapter))
               (file_settles 0 (Inr (File ''x.png'')) (snd (upload 0 one_adapter))))) =
       cancelled one_adapter @ [length (controllers one_adapter)]"
proof -
  let ?u = "Str ''https://api.cloudinary.com/v1_1/demo/upload''"
  let ?w2 = "file_settles 0 (Inr (File ''x.png'')) (snd (upload 0 one_adapter))"
  have h1: "0 < length (adapters one_adapter)"
    by (simp add: one_adapter_adapters)
  have h2: "truthy (options (adapters one_adapter ! 0))"
    by (simp add: one_adapter_adapters cloudinary_options_def)
  have h3: "upload 0 one_adapter = (0, snd (upload 0 one_adapter))"
    by (simp add: upload_one_adapter)
  have h4: "?w2 = snd (upload 0 one_adapter) \<or> ?w2 = ?w2
            \<or> ?w2 = fetch_settles 0 (?u \<noteq> Str ''http://'') (Inr cdn_response) ?w2"
    by simp
  have h5: "file_answer (answered cdn_response) = Inr (File ''x.png'')"
    by (simp add: answered_def)
  have h6: "get_prop ''CLOUDINARY_UPLOAD_URL'' (options (adapters one_adapter ! 0)) = Inr ?u"
    by (simp add: one_adapter_adapters cloudinary_options_def)
  have h7: "?u \<noteq> Str ''http://''"
    by simp
  show ?thesis
    using abort_pending_upload
            [where constructs = "\<lambda>v. v \<noteq> Str ''http://''", OF h1 h2 h3 h4 h5 h6 h7]
          h1 h2 h5 h6 h7
    by blast
qed

section \<open>Adapters do not share state\<close>

lemma map_update_same:
  assumes "f y = f (xs ! k)"
  shows "map f (xs[k := y]) = map f xs"
proof (cases "k < length xs")
  case True
  then show ?thesis using assms by (simp add: map_update list_update_same_conv)
next
  case False
  then show ?thesis by (simp add: list_update_beyond)
qed

lemma owners_file_settles: "owners (file_settles k r w) = owners w"
  by (simp add: owners_def file_settles_def settle_def Let_def map_update_same
      split: sum.splits)

lemma owners_fetch_settles: "owners (fetch_settles k b net w) = owners w"
  by (simp add: owners_def fetch_settles_def settle_def map_update_same split: sum.splits)

lemma owners_json_settles: "owners (json_settles k w) = owners w"
  by (simp add: owners_def json_settles_def settle_def map_update_same
      split: sum.splits stage.splits)

lemma owners_signal_abort: "owners (signal_abort c w) = owners w"
  by (simp add: owners_def signal_abort_view)

lemma owners_upload:
  "owners (snd (upload a w)) = owners w @ [(length (controllers w), a)]"
  by (simp add: owners_def upload_def Let_def split: sum.splits)

lemma upload_controllers: "controllers (snd (upload a w)) = controllers w @ [False]"
  by (simp add: upload_def Let_def split: sum.splits)

lemma upload_adapters:
  "adapters (snd (upload a w)) =
     (if a < length (adapters w)
      then (adapters w)[a := (adapters w ! a)\<lparr>abortController := Some (length (controllers w))\<rparr>]
      else adapters w)"
  by (simp add: upload_def Let_def split: sum.splits)

lemma upload_calls_old:
  "k < length (calls w) \<Longrightarrow> calls (snd (upload a w)) ! k = calls w ! k"
  by (simp add: upload_def Let_def nth_append split: sum.splits)

lemma upload_calls_length: "length (calls (snd (upload a w))) = Suc (length (calls w))"
  by (simp add: upload_def Let_def split: sum.splits)

lemma consistent_upload:
  assumes "consistent w"
  shows "consistent (snd (upload a w))"
proof -
  have d: "distinct (map fst (owners w))"
    and b: "\<And>c. c \<in> set (map fst (owners w)) \<Longrightarrow> c < length (controllers w)"
    and o: "\<And>b c. b < length (adapters w) \<Longrightarrow> abortController (adapters w ! b) = Some c
              \<Longrightarrow> (c, b) \<in> set (owners w)"
    using assms by (auto simp add: consistent_def)
  have fresh: "length (controllers w) \<notin> set (map fst (owners w))"
    using b by blast
  have 1: "distinct (map fst (owners (snd (upload a w))))"
    using d fresh by (simp add: owners_upload)
  have 2: "\<forall>c \<in> set (map fst (owners (snd (upload a w)))).
             c < length (controllers (snd (upload a w)))"
    using b by (auto simp add: owners_upload upload_controllers less_Suc_eq)
  have 3: "\<forall>b < length (adapters (snd (upload a w))). \<forall>c.
         abortController (adapters (snd (upload a w)) ! b) = Some c \<longrightarrow>
         (c, b) \<in> set (owners (snd (upload a w)))"
    using o by (auto simp add: owners_upload upload_adapters nth_list_update split: if_splits)
  show ?thesis
    unfolding consistent_def using 1 2 3 by blast
qed

lemma consistent_signal_abort: "consistent w \<Longrightarrow> consistent (signal_abort c w)"
  by (simp add: consistent_def owners_signal_abort signal_abort_view)

lemma consistent_file_settles: "consistent w \<Longrightarrow> consistent (file_settles k r w)"
  by (simp add: consistent_def owners_file_settles file_settles_frame)

lemma consistent_fetch_settles: "consistent w \<Longrightarrow> consistent (fetch_settles k b net w)"
  by (simp add: consistent_def owners_fetch_settles fetch_settles_view)

lemma consistent_json_settles: "consistent w \<Longrightarrow> consistent (json_settles k w)"
  by (simp add: consistent_def owners_json_settles json_settles_view)

lemma consistent_new_Adapter: "consistent w \<Longrightarrow> consistent (snd (new_Adapter l opts w))"
  by (auto simp add: consistent_def owners_def new_Adapter_def nth_append less_Suc_eq)

lemma consistent_apply_factory: "consistent w \<Longrightarrow> consistent (snd (apply_factory fa l w))"
  by (cases fa) (simp add: consistent_new_Adapter)

lemma consistent_step: "consistent w \<Longrightarrow> consistent (step e w)"
proof (cases e)
  case (Create l)
  assume "consistent w"
  then show ?thesis
    using Create
    by (cases "createUploadAdapter w") (simp_all add: consistent_apply_factory)
next
  case (Abort a)
  assume "consistent w"
  then show ?thesis
    using Abort by (auto simp add: abort_def consistent_signal_abort split: option.splits)
qed (simp_all add: consistent_upload consistent_file_settles consistent_fetch_settles
    consistent_json_settles)

lemma exec_Nil: "exec [] w = w"
  by (simp add: exec_def)

lemma exec_Cons: "exec (e # es) w = exec es (step e w)"
  by (simp add: exec_def)

lemma consistent_exec: "consistent w \<Longrightarrow> consistent (exec evs w)"
  by (induction evs arbitrary: w) (simp_all add: exec_Nil exec_Cons consistent_step)

text \<open>The invariant holds when the editor starts, and every event keeps it.\<close>

lemma consistent_empty_world: "consistent (empty_world cfg)"
  by (simp add: consistent_def owners_def empty_world_def)

lemma untouched_refl: "untouched a w w"
  by (simp add: untouched_def)

lemma untouched_trans:
  assumes "untouched a w w'" and "untouched a w' w''"
  shows "untouched a w w''"
  using assms unfolding untouched_def
  by (metis (no_types, lifting) le_trans less_le_trans)

lemma signal_in_owners:
  "k < length (calls w) \<Longrightarrow> (signal (calls w ! k), self (calls w ! k)) \<in> set (owners w)"
  unfolding owners_def by (metis (mono_tags, lifting) length_map nth_map nth_mem)

lemma signal_bound:
  assumes "consistent w" and "k < length (calls w)"
  shows "signal (calls w ! k) < length (controllers w)"
proof -
  have "signal (calls w ! k) \<in> set (map fst (owners w))"
    using signal_in_owners [OF assms(2)] by (metis fst_conv image_eqI set_map)
  then show ?thesis
    using assms(1) unfolding consistent_def by blast
qed

lemma foreign_controller:
  assumes "consistent w" and "k < length (calls w)" and "self (calls w ! k) = a"
    and "b < length (adapters w)" and "abortController (adapters w ! b) = Some c"
    and "b \<noteq> a"
  shows "signal (calls w ! k) \<noteq> c"
proof
  assume eq: "signal (calls w ! k) = c"
  have 1: "(c, a) \<in> set (owners w)"
    using signal_in_owners [OF assms(2)] eq assms(3) by simp
  have 2: "(c, b) \<in> set (owners w)"
    using assms(1,4,5) by (simp add: consistent_def)
  have "distinct (map fst (owners w))"
    using assms(1) by (simp add: consistent_def)
  then have "a = b"
    using 1 2 by (rule eq_key_imp_eq_value)
  then show False
    using assms(6) by simp
qed

lemma untouched_upload:
  assumes "consistent w" and "b \<noteq> a"
  shows "untouched a w (snd (upload b w))"
  unfolding untouched_def
  using assms(2) signal_bound [OF assms(1)]
  by (simp add: upload_adapters upload_calls_length upload_calls_old upload_controllers
      nth_append)

lemma untouched_abort:
  assumes "consistent w" and "b \<noteq> a" and "abort b w = Inr w'"
  shows "untouched a w w'"
proof -
  obtain c where b: "b < length (adapters w)" and c: "abortController (adapters w ! b) = Some c"
    and w': "w' = signal_abort c w"
    using assms(3) by (auto simp add: abort_def split: if_splits option.splits)
  have "\<And>k. k < length (calls w) \<Longrightarrow> self (calls w ! k) = a \<Longrightarrow>
          c \<noteq> signal (calls w ! k)"
    using foreign_controller [OF assms(1) _ _ b c assms(2)] by blast
  then show ?thesis
    unfolding untouched_def w' by (simp add: signal_abort_view)
qed

lemma calls_file_settles_other:
  "k \<noteq> k' \<Longrightarrow> calls (file_settles k' r w) ! k = calls w ! k"
  by (simp add: file_settles_def settle_def Let_def split: sum.splits)

lemma calls_fetch_settles_other:
  "k \<noteq> k' \<Longrightarrow> calls (fetch_settles k' b net w) ! k = calls w ! k"
  by (simp add: fetch_settles_def settle_def split: sum.splits)

lemma calls_json_settles_other:
  "k \<noteq> k' \<Longrightarrow> calls (json_settles k' w) ! k = calls w ! k"
  by (simp add: json_settles_def settle_def split: sum.splits stage.splits)

lemma file_settles_beyond: "\<not> k < length (calls w) \<Longrightarrow> file_settles k r w = w"
  by (simp add: file_settles_def)

lemma fetch_settles_beyond: "\<not> k < length (calls w) \<Longrightarrow> fetch_settles k b net w = w"
  by (simp add: fetch_settles_def)

lemma json_settles_beyond: "\<not> k < length (calls w) \<Longrightarrow> json_settles k w = w"
  by (simp add: json_settles_def)

lemma untouched_file_settles:
  assumes "\<not> (k' < length (calls w) \<and> self (calls w ! k') = a)"
  shows "untouched a w (file_settles k' r w)"
proof (cases "k' < length (calls w)")
  case True
  then have "\<And>k. self (calls w ! k) = a \<Longrightarrow> k \<noteq> k'"
    using assms by blast
  then show ?thesis
    unfolding untouched_def by (simp add: file_settles_frame calls_file_settles_other)
next
  case False
  then show ?thesis by (simp add: file_settles_beyond untouched_refl)
qed

lemma untouched_fetch_settles:
  assumes "\<not> (k' < length (calls w) \<and> self (calls w ! k') = a)"
  shows "untouched a w (fetch_settles k' b net w)"
proof (cases "k' < length (calls w)")
  case True
  then have "\<And>k. self (calls w ! k) = a \<Longrightarrow> k \<noteq> k'"
    using assms by blast
  then show ?thesis
    unfolding untouched_def by (simp add: fetch_settles_view calls_fetch_settles_other)
next
  case False
  then show ?thesis by (simp add: fetch_settles_beyond untouched_refl)
qed

lemma untouched_json_settles:
  assumes "\<not> (k' < length (calls w) \<and> self (calls w ! k') = a)"
  shows "untouched a w (json_settles k' w)"
proof (cases "k' < length (calls w)")
  case True
  then have "\<And>k. self (calls w ! k) = a \<Longrightarrow> k \<noteq> k'"
    using assms by blast
  then show ?thesis
    unfolding untouched_def by (simp add: json_settles_view calls_json_settles_other)
next
  case False
  then show ?thesis by (simp add: json_settles_beyond untouched_refl)
qed

lemma untouched_apply_factory:
  "a < length (adapters w) \<Longrightarrow> untouched a w (snd (apply_factory fa l w))"
  by (cases fa) (simp add: untouched_def new_Adapter_def nth_append)

lemma untouched_step:
  assumes "consistent w" and "a < length (adapters w)" and "\<not> concerns a w e"
  shows "untouched a w (step e w)"
proof (cases e)
  case (Create l)
  then show ?thesis
    using assms(2)
    by (cases "createUploadAdapter w") (simp_all add: untouched_refl untouched_apply_factory)
next
  case (Upload b)
  then show ?thesis
    using assms(1,3) by (simp add: untouched_upload)
next
  case (Abort b)
  then show ?thesis
    using assms(1,3)
    by (cases "abort b w") (simp_all add: untouched_refl untouched_abort)
next
  case (FileSettles k r)
  then show ?thesis
    using assms(3) by (simp add: untouched_file_settles)
next
  case (FetchSettles k b net)
  then show ?thesis
    using assms(3) by (simp add: untouched_fetch_settles)
next
  case (JsonSettles k)
  then show ?thesis
    using assms(3) by (simp add: untouched_json_settles)
qed

lemma untouched_exec:
  assumes "consistent w" and "a < length (adapters w)" and "foreign a evs w"
  shows "untouched a w (exec evs w)"
  using assms
proof (induction evs arbitrary: w)
  case Nil
  then show ?case by (simp add: exec_Nil untouched_refl)
next
  case (Cons e es)
  have 1: "untouched a w (step e w)"
    using Cons.prems by (simp add: untouched_step)
  then have "a < length (adapters (step e w))"
    using Cons.prems(2) by (simp add: untouched_def)
  then have "untouched a (step e w) (exec es (step e w))"
    using Cons.prems by (intro Cons.IH) (simp_all add: consistent_step)
  then show ?case
    using 1 by (simp add: exec_Cons untouched_trans [of a w "step e w"])
qed

lemma truthy_receiver:
  "get_prop name v = Inr u \<Longrightarrow> truthy u \<Longrightarrow> truthy v"
  by (cases v) auto

lemma init_valid:
  assumes "map_of (config w) ''simpleUpload'' = Some opts"
    and "get_prop ''uploadUrl'' opts = Inr u"
    and "truthy u"
  shows "init attachLinkToDocumentation w =
           Inr (w\<lparr>createUploadAdapter := Some (AdapterFactory opts)\<rparr>)"
  using assms truthy_receiver [OF assms(2,3)]
  by (simp add: init_def config_get_present)

lemma factory_step: "createUploadAdapter (step e w) = createUploadAdapter w"
proof (cases e)
  case (Create l)
  then show ?thesis
  proof (cases "createUploadAdapter w")
    case None
    then show ?thesis using Create by simp
  next
    case (Some fa)
    then show ?thesis using Create by (cases fa) (simp add: new_Adapter_def)
  qed
next
  case (Upload a)
  then show ?thesis by (simp add: upload_def Let_def split: sum.splits)
next
  case (Abort a)
  then show ?thesis
    by (simp add: abort_def signal_abort_view split: option.splits)
next
  case (FileSettles k r)
  then show ?thesis
    by (simp add: file_settles_def settle_def Let_def split: sum.splits)
next
  case (FetchSettles k b net)
  then show ?thesis
    by (simp add: fetch_settles_def settle_def split: sum.splits)
next
  case (JsonSettles k)
  then show ?thesis
    by (simp add: json_settles_def settle_def split: sum.splits stage.splits)
qed

lemma factory_exec: "createUploadAdapter (exec evs w) = createUploadAdapter w"
  by (induction evs arbitrary: w) (simp_all add: exec_Nil exec_Cons factory_step)

lemma adapters_step: "length (adapters w) \<le> length (adapters (step e w))"
proof (cases e)
  case (Create l)
  then show ?thesis
  proof (cases "createUploadAdapter w")
    case None
    then show ?thesis using Create by simp
  next
    case (Some fa)
    then show ?thesis using Create by (cases fa) (simp add: new_Adapter_def)
  qed
next
  case (Upload a)
  then show ?thesis by (simp add: upload_adapters)
next
  case (Abort a)
  then show ?thesis
    by (simp add: abort_def signal_abort_view split: option.splits)
qed (simp_all add: file_settles_frame fetch_settles_view json_settles_view)

lemma adapters_exec: "length (adapters w) \<le> length (adapters (exec evs w))"
proof (induction evs arbitrary: w)
  case Nil
  then show ?case by (simp add: exec_Nil)
next
  case (Cons e es)
  then show ?case
    using adapters_step [of w e] le_trans by (fastforce simp add: exec_Cons)
qed

text \<open>
  C6. When the configuration has a truthy \<^verbatim>\<open>uploadUrl\<close>, \<^verbatim>\<open>init()\<close> registers the
  factory, and the factory stays registered whatever happens later. Each call of the
  factory with a loader returns a new object, at an address no adapter had before, bound
  to that loader and to the options of the configuration, with no controller yet, and
  leaves every existing adapter as it was; any later call of the factory returns yet
  another address. And the adapters are independent: whatever is done with the other
  adapters (creating them, \<^verbatim>\<open>upload()\<close>, \<^verbatim>\<open>abort()\<close>, their promises settling), adapter
  \<open>a\<close> keeps its fields, its calls keep their stage, form and result, and the
  controllers of its calls keep their flags.
\<close>

theorem factory_creates_independent_adapters:
  assumes "consistent w0"
    and "map_of (config w0) ''simpleUpload'' = Some opts"
    and "get_prop ''uploadUrl'' opts = Inr u"
    and "truthy u"
    and "w = exec history (w0\<lparr>createUploadAdapter := Some (AdapterFactory opts)\<rparr>)"
    and "a < length (adapters w)"
    and "foreign a evs w"
  shows "init attachLinkToDocumentation w0 =
           Inr (w0\<lparr>createUploadAdapter := Some (AdapterFactory opts)\<rparr>)
       \<and> createUploadAdapter w = Some (AdapterFactory opts)
       \<and> apply_factory (AdapterFactory opts) l w =
           (length (adapters w),
            w\<lparr>adapters := adapters w @
                  [\<lparr>loader = l, options = opts, abortController = None\<rparr>]\<rparr>)
       \<and> length (adapters w) <
           fst (apply_factory (AdapterFactory opts) l'
                  (exec evs' (snd (apply_factory (AdapterFactory opts) l w))))
       \<and> untouched a w (exec evs w)"
proof -
  let ?wi = "w0\<lparr>createUploadAdapter := Some (AdapterFactory opts)\<rparr>"
  have 1: "init attachLinkToDocumentation w0 = Inr ?wi"
    using assms(2,3,4) by (rule init_valid)
  have 2: "createUploadAdapter w = Some (AdapterFactory opts)"
    by (simp add: assms(5) factory_exec)
  have 3: "apply_factory (AdapterFactory opts) l w =
           (length (adapters w),
            w\<lparr>adapters := adapters w @
                  [\<lparr>loader = l, options = opts, abortController = None\<rparr>]\<rparr>)"
    by (simp add: new_Adapter_def)
  have "length (adapters (snd (apply_factory (AdapterFactory opts) l w))) = Suc (length (adapters w))"
    by (simp add: new_Adapter_def)
  then have 4: "length (adapters w) <
           fst (apply_factory (AdapterFactory opts) l'
                  (exec evs' (snd (apply_factory (AdapterFactory opts) l w))))"
    using adapters_exec [of "snd (apply_factory (AdapterFactory opts) l w)" evs']
    by (simp add: new_Adapter_def)
  have "consistent ?wi"
    using assms(1) by (simp add: consistent_def owners_def)
  then have "consistent w"
    unfolding assms(5) by (rule consistent_exec)
  then have 5: "untouched a w (exec evs w)"
    using assms(6,7) by (rule untouched_exec)
  show ?thesis
    using 1 2 3 4 5 by blast
qed

theorem factory_creates_independent_adapters_witness:
  "consistent (empty_world [(''simpleUpload'', cloudinary_options)])
   \<and> map_of (config (empty_world [(''simpleUpload'', cloudinary_options)])) ''simpleUpload'' =
       Some cloudinary_options
   \<and> get_prop ''uploadUrl'' cloudinary_options = Inr (Str ''http://example.com'')
   \<and> truthy (Str ''http://example.com'')
   \<and> 0 < length (adapters (exec [Create 7, Create 8]
         ((empty_world [(''simpleUpload'', cloudinary_options)])
            \<lparr>createUploadAdapter := Some (AdapterFactory cloudinary_options)\<rparr>)))
   \<and> foreign 0 [Upload 1, Abort 1]
         (exec [Create 7, Create 8]
           ((empty_world [(''simpleUpload'', cloudinary_options)])
              \<lparr>createUploadAdapter := Some (AdapterFactory cloudinary_options)\<rparr>))
   \<and> init id (empty_world [(''simpleUpload'', cloudinary_options)]) =
       Inr ((empty_world [(''simpleUpload'', cloudinary_options)])
              \<lparr>createUploadAdapter := Some (AdapterFactory cloudinary_options)\<rparr>)
   \<and> untouched 0
         (exec [Create 7, Create 8]
           ((empty_world [(''simpleUpload'', cloudinary_options)])
              \<lparr>createUploadAdapter := Some (AdapterFactory cloudinary_options)\<rparr>))
         (exec [Upload 1, Abort 1]
           (exec [Create 7, Create 8]
             ((empty_world [(''simpleUpload'', cloudinary_options)])
                \<lparr>createUploadAdapter := Some (AdapterFactory cloudinary_options)\<rparr>)))"
proof -
  let ?start = "empty_world [(''simpleUpload'', cloudinary_options)]"
  let ?now = "exec [Create 7, Create 8]
              (?start\<lparr>createUploadAdapter := Some (AdapterFactory cloudinary_options)\<rparr>)"
  have h1: "consistent ?start"
    by (simp add: consistent_def owners_def empty_world_def)
  have h2: "map_of (config ?start) ''simpleUpload'' = Some cloudinary_options"
    by (simp add: empty_world_def)
  have h3: "get_prop ''uploadUrl'' cloudinary_options = Inr (Str ''http://example.com'')"
    by (simp add: cloudinary_options_def)
  have h4: "truthy (Str ''http://example.com'')"
    by simp
  have h5: "?now = ?now" by (rule refl)
  have h6: "0 < length (adapters ?now)"
    by (simp add: exec_def new_Adapter_def empty_world_def)
  have h7: "foreign 0 [Upload 1, Abort 1] ?now"
    by simp
  show ?thesis
    using factory_creates_independent_adapters [OF h1 h2 h3 h4 h5 h6 h7] h1 h2 h3 h4 h6 h7
    by blast
qed

section \<open>abort() after the call has ended\<close>

text \<open>Running a call to its end is one particular sequence of events.\<close>

lemma exec_finish:
  "exec [FileSettles k (file_answer env), FetchSettles k b (net_answer env), JsonSettles k] w =
     finish_with b env k w"
  by (simp add: exec_def finish_with_def)

lemma adapter_step:
  assumes "a < length (adapters w)" and "e \<noteq> Upload a"
  shows "a < length (adapters (step e w)) \<and> adapters (step e w) ! a = adapters w ! a"
proof (cases e)
  case (Create l)
  then show ?thesis
  proof (cases "createUploadAdapter w")
    case None
    then show ?thesis using Create assms(1) by simp
  next
    case (Some fa)
    then show ?thesis
      using Create assms(1) by (cases fa) (simp add: new_Adapter_def nth_append)
  qed
next
  case (Upload b)
  then show ?thesis
    using assms by (simp add: upload_adapters)
next
  case (Abort b)
  then show ?thesis
    using assms(1) by (simp add: abort_def signal_abort_view split: option.splits)
next
  case (FileSettles k r)
  then show ?thesis using assms(1) by (simp add: file_settles_frame)
next
  case (FetchSettles k b net)
  then show ?thesis using assms(1) by (simp add: fetch_settles_view)
next
  case (JsonSettles k)
  then show ?thesis using assms(1) by (simp add: json_settles_view)
qed

lemma adapter_exec:
  assumes "a < length (adapters w)" and "Upload a \<notin> set evs"
  shows "a < length (adapters (exec evs w)) \<and> adapters (exec evs w) ! a = adapters w ! a"
  using assms
proof (induction evs arbitrary: w)
  case Nil
  then show ?case by (simp add: exec_Nil)
next
  case (Cons e es)
  have e: "e \<noteq> Upload a" and es: "Upload a \<notin> set es"
    using Cons.prems(2) by auto
  have 1: "a < length (adapters (step e w))" "adapters (step e w) ! a = adapters w ! a"
    using adapter_step [OF Cons.prems(1) e] by simp_all
  show ?case
    using Cons.IH [OF 1(1) es] 1(2) by (simp add: exec_Cons)
qed

text \<open>
  C3, amended. Once a call of \<^verbatim>\<open>upload()\<close> on an adapter has settled, whatever happened
  since it started (its promises settling, \<^verbatim>\<open>abort()\<close>, events on other adapters; no
  further \<^verbatim>\<open>upload()\<close> on this adapter), \<^verbatim>\<open>abort()\<close> throws nothing and leaves the
  adapters, the calls with their results, the requests made, the console and the
  registered factory as they were: it only sets the aborted flag of the controller of
  that finished call and fires its abort event, and does nothing at all when the flag
  is already set.
\<close>

theorem abort_after_settled:
  assumes "a < length (adapters w)"
    and "upload a w = (k, w1)"
    and "w2 = exec evs w1"
    and "Upload a \<notin> set evs"
    and "outcome k w2 = Some r"
  shows "abort a w2 =
           Inr (if controllers w2 ! length (controllers w) then w2
                else w2\<lparr>controllers := (controllers w2)[length (controllers w) := True],
                        cancelled := cancelled w2 @ [length (controllers w)]\<rparr>)
       \<and> outcome k (w2\<lparr>controllers := (controllers w2)[length (controllers w) := True],
                          cancelled := cancelled w2 @ [length (controllers w)]\<rparr>) = Some r"
proof -
  have w1: "w1 = snd (upload a w)"
    using assms(2) by simp
  have "a < length (adapters w1)"
    and "adapters w1 ! a = (adapters w ! a)\<lparr>abortController := Some (length (controllers w))\<rparr>"
    using assms(1) by (simp_all add: w1 upload_adapter)
  then have a: "a < length (adapters w2)"
    and c: "abortController (adapters w2 ! a) = Some (length (controllers w))"
    using adapter_exec [OF _ assms(4), of w1] by (simp_all add: assms(3))
  have "abort a w2 = Inr (signal_abort (length (controllers w)) w2)"
    using a c by (rule abort_started)
  then show ?thesis
    using assms(5) by (simp add: signal_abort_def outcome_def)
qed

theorem abort_after_settled_witness:
  "0 < length (adapters one_adapter)
   \<and> Upload 0 \<notin> set [FileSettles 0 (Inr (File ''x.png'')), FetchSettles 0 True (Inr cdn_response),
                         JsonSettles 0]
   \<and> outcome 0
         (exec [FileSettles 0 (Inr (File ''x.png'')), FetchSettles 0 True (Inr cdn_response),
                JsonSettles 0] (snd (upload 0 one_adapter))) =
       Some (Inr (Obj [(''default'', Str ''https://cdn.example.com/x.png'')]))
   \<and> abort 0
         (exec [FileSettles 0 (Inr (File ''x.png'')), FetchSettles 0 True (Inr cdn_response),
                JsonSettles 0] (snd (upload 0 one_adapter))) =
       Inr (if controllers
                 (exec [FileSettles 0 (Inr (File ''x.png'')), FetchSettles 0 True (Inr cdn_response),
                        JsonSettles 0] (snd (upload 0 one_adapter))) !
               length (controllers one_adapter)
            then exec [FileSettles 0 (Inr (File ''x.png'')), FetchSettles 0 True (Inr cdn_response),
                       JsonSettles 0] (snd (upload 0 one_adapter))
            else (exec [FileSettles 0 (Inr (File ''x.png'')), FetchSettles 0 True (Inr cdn_response),
                        JsonSettles 0] (snd (upload 0 one_adapter)))
                 \<lparr>controllers :=
                    (controllers
                       (exec [FileSettles 0 (Inr (File ''x.png'')),
                              FetchSettles 0 True (Inr cdn_response), JsonSettles 0]
                          (snd (upload 0 one_adapter))))
                    [length (controllers one_adapter) := True],
                  cancelled :=
                    cancelled
                      (exec [FileSettles 0 (Inr (File ''x.png'')),
                             FetchSettles 0 True (Inr cdn_response), JsonSettles 0]
                         (snd (upload 0 one_adapter))) @
                    [length (controllers one_adapter)]\<rparr>)"
proof -
  let ?evs = "[FileSettles 0 (Inr (File ''x.png'')), FetchSettles 0 True (Inr cdn_response),
               JsonSettles 0]"
  have h1: "0 < length (adapters one_adapter)"
    by (simp add: one_adapter_adapters)
  have h2: "upload 0 one_adapter = (0, snd (upload 0 one_adapter))"
    by (simp add: upload_one_adapter)
  have h3: "exec ?evs (snd (upload 0 one_adapter)) = exec ?evs (snd (upload 0 one_adapter))"
    by (rule refl)
  have h4: "Upload 0 \<notin> set ?evs"
    by simp
  have h5: "outcome 0 (exec ?evs (snd (upload 0 one_adapter))) =
              Some (Inr (Obj [(''default'', Str ''https://cdn.example.com/x.png'')]))"
    using finish_one_adapter_outcome by (simp add: exec_def finish_def answered_def)
  show ?thesis
    using abort_after_settled [OF h1 h2 h3 h4 h5] h1 h4 h5 by blast
qed

end
